theory Spec2Isabelle
  imports Main "HOL-Library.Char_ord" "HOL-Library.List_Lexorder" "HOL-Library.Multiset"
begin

section \<open>Strings and arrays of the runtime\<close>

text \<open>
  The converters are TypeScript. A JavaScript string is modelled as a \<open>string\<close>
  (a list of characters), an array of strings as a \<open>string list\<close>. The functions of
  this section are the built-ins the converters call: \<open>Array.prototype.join\<close>,
  \<open>String.prototype.split\<close> with a one-character separator,
  \<open>String.prototype.padStart\<close>, and the character classes of the regular
  expressions (\<open>\d\<close> and \<open>\s\<close>).
\<close>

definition isDigit :: "char \<Rightarrow> bool" where
  "isDigit c \<longleftrightarrow> c \<in> set ''0123456789''"

text \<open>White space as \<open>String.prototype.trim\<close> and \<open>\s\<close> read it, on one-byte characters:
  tab, line feed, vertical tab, form feed, carriage return, space and no-break space.\<close>

definition isSpace :: "char \<Rightarrow> bool" where
  "isSpace c \<longleftrightarrow> c \<in> set [CHR 0x09, CHR 0x0A, CHR 0x0B, CHR 0x0C, CHR 0x0D, CHR 0x20, CHR 0xA0]"

text \<open>\<open>s.trim()\<close> used as a condition: true when a character other than white space is left.\<close>

definition trimTruthy :: "string \<Rightarrow> bool" where
  "trimTruthy s \<longleftrightarrow> \<not> list_all isSpace s"

fun join :: "string \<Rightarrow> string list \<Rightarrow> string" where
  "join sep [] = []"
| "join sep [x] = x"
| "join sep (x # y # ys) = x @ sep @ join sep (y # ys)"

text \<open>\<open>s.split(c)\<close>: the pieces between the occurrences of \<open>c\<close>; never an empty array.\<close>

fun split :: "char \<Rightarrow> string \<Rightarrow> string list" where
  "split c [] = [[]]"
| "split c (x # xs) =
     (if x = c then [] # split c xs
      else (case split c xs of p # ps \<Rightarrow> (x # p) # ps | [] \<Rightarrow> [[x]]))"

definition padStart :: "nat \<Rightarrow> char \<Rightarrow> string \<Rightarrow> string" where
  "padStart n c s = replicate (n - length s) c @ s"

text \<open>\<open>v || ''\<close> on a value that may be \<open>undefined\<close>.\<close>

fun orEmpty :: "string option \<Rightarrow> string" where
  "orEmpty None = []"
| "orEmpty (Some v) = v"

text \<open>\<open>fields[i]\<close>: \<open>undefined\<close> out of range.\<close>

definition nthOpt :: "'a list \<Rightarrow> nat \<Rightarrow> 'a option" where
  "nthOpt xs i = (if i < length xs then Some (xs ! i) else None)"

section \<open>formatDate of the JSON converters\<close>

text \<open>
  \<^verbatim>\<open>
  const formatDate = (dateStr: string): string => {
    if (dateStr && /^\d{8}$/.test(dateStr)) return dateStr;
    if (dateStr && /^(\d{1,2})[-/](\d{1,2})[-/](\d{4})$/.test(dateStr)) {
      const [, month, day, year] = dateStr.match(/^(\d{1,2})[-/](\d{1,2})[-/](\d{4})$/)!;
      return `${year}${month.padStart(2, '0')}${day.padStart(2, '0')}`;
    }
    return '';
  };
  \<close>
  The same text stands in CMSConverter.tsx (line 57) and in the table-driven converter
  (part_000, line 82). The two regular expressions are written out: \<open>digits12\<close> lists
  the ways \<open>\d{1,2}\<close> can match at the head of the input in the order the engine
  tries them (greedy first), \<open>dateSep\<close> is \<open>[-/]\<close>, \<open>year4\<close> is \<open>(\d{4})$\<close>,
  \<open>dateMatches\<close> lists the ways the whole expression can match in the order of the
  engine's backtracking, and \<open>matchDate\<close> takes the first.
\<close>

definition isDate8 :: "string \<Rightarrow> bool" where
  "isDate8 s \<longleftrightarrow> length s = 8 \<and> list_all isDigit s"

fun digits12 :: "string \<Rightarrow> (string \<times> string) list" where
  "digits12 (a # b # r) =
     (if isDigit a then (if isDigit b then [([a, b], r), ([a], b # r)] else [([a], b # r)])
      else [])"
| "digits12 [a] = (if isDigit a then [([a], [])] else [])"
| "digits12 [] = []"

fun dateSep :: "string \<Rightarrow> string list" where
  "dateSep (c # r) = (if c = CHR ''-'' \<or> c = CHR ''/'' then [r] else [])"
| "dateSep [] = []"

definition year4 :: "string \<Rightarrow> string list" where
  "year4 s = (if length s = 4 \<and> list_all isDigit s then [s] else [])"

definition dateMatches :: "string \<Rightarrow> (string \<times> string \<times> string) list" where
  "dateMatches s =
     List.bind (digits12 s) (\<lambda>(month, r1).
       List.bind (dateSep r1) (\<lambda>r2.
         List.bind (digits12 r2) (\<lambda>(day, r3).
           List.bind (dateSep r3) (\<lambda>r4.
             List.bind (year4 r4) (\<lambda>year. [(month, day, year)])))))"

definition matchDate :: "string \<Rightarrow> (string \<times> string \<times> string) option" where
  "matchDate s = (case dateMatches s of [] \<Rightarrow> None | x # _ \<Rightarrow> Some x)"

definition formatDate :: "string \<Rightarrow> string" where
  "formatDate dateStr =
     (if dateStr \<noteq> [] \<and> isDate8 dateStr then dateStr
      else if dateStr \<noteq> [] then
        (case matchDate dateStr of
           Some (month, day, year) \<Rightarrow>
             year @ padStart 2 (CHR ''0'') month @ padStart 2 (CHR ''0'') day
         | None \<Rightarrow> [])
      else [])"

section \<open>createSegment\<close>

text \<open>
  \<^verbatim>\<open>
  const createSegment = (segmentName: string, fields: string[]): string => {
    while (fields.length > 1 && fields[fields.length - 1] === '') {
      fields.pop();
    }
    return [segmentName, ...fields].join('|');
  };
  \<close>
  The loop pops the last slot while it is empty and more than one slot is left.
\<close>

function trimTrailing :: "string list \<Rightarrow> string list" where
  "trimTrailing fields =
     (if length fields > 1 \<and> last fields = [] then trimTrailing (butlast fields) else fields)"
  by pat_completeness auto
termination
  by (relation "measure length") auto

definition createSegment :: "string \<Rightarrow> string list \<Rightarrow> string" where
  "createSegment segmentName fields = join ''|'' (segmentName # trimTrailing fields)"

declare trimTrailing.simps [simp del]

section \<open>Records and the table-driven converter\<close>

text \<open>
  The canonical record is the parsed JSON: an object whose keys are segment keys and whose
  values are objects of string fields. \<open>Object.keys\<close> and \<open>Object.entries\<close> list
  the keys in the order of the text, so the encoder's input is an association list
  (\<open>map_of\<close> reads a property). The decoder builds its result by assignments
  \<open>jsonOutput[key] = ...\<close>; only the bindings of the result matter, and it is a map.
\<close>

type_synonym fieldObj = "(string \<times> string) list"
type_synonym hl7Obj = "(string \<times> fieldObj) list"
type_synonym fieldMap = "string \<rightharpoonup> string"
type_synonym hl7Json = "string \<rightharpoonup> fieldMap"

text \<open>
  \<open>obj[key] = value\<close> on an object made by a literal \<open>{}\<close>. The key
  \<open>__proto__\<close> is the accessor of the prototype: an assignment to it changes the
  prototype (or nothing, when the value is a string) and gives the object no entry. The
  record is the entries of the object, so such an assignment leaves it as it is.
\<close>

definition assign :: "(string \<rightharpoonup> 'v) \<Rightarrow> string \<Rightarrow> 'v \<Rightarrow> (string \<rightharpoonup> 'v)" where
  "assign obj k v = (if k = ''__proto__'' then obj else obj(k \<mapsto> v))"

text \<open>\<open>obj[name] || ''\<close> on an object of strings.\<close>

definition getProp :: "fieldObj \<Rightarrow> string \<Rightarrow> string" where
  "getProp obj name = orEmpty (map_of obj name)"

datatype fieldDef =
  FieldDef (field: string) (index: nat) (transform: "(string \<Rightarrow> string) option")

definition fd :: "string \<Rightarrow> nat \<Rightarrow> fieldDef" where
  "fd f i = FieldDef f i None"

definition fdDate :: "string \<Rightarrow> nat \<Rightarrow> fieldDef" where
  "fdDate f i = FieldDef f i (Some formatDate)"

text \<open>The table \<open>segmentDefinitions\<close> of \<open>convertToHL7\<close> (part_000, lines 108 to 157).\<close>

definition segmentDefinitions :: "(string \<times> fieldDef list) list" where
  "segmentDefinitions =
     [(''MSH'',
        [fd ''encodingCharacters'' 1, fd ''sendingApplication'' 2, fd ''sendingFacility'' 3,
         fd ''receivingApplication'' 4, fd ''receivingFacility'' 5, fdDate ''dateTime'' 6,
         fd ''messageType'' 8, fd ''controlId'' 9, fd ''processingId'' 10, fd ''versionId'' 11]),
      (''PID'',
        [fd ''setId'' 1, fd ''patientId'' 3, fd ''patientName'' 5, fdDate ''dob'' 7,
         fd ''gender'' 8, fd ''address'' 11, fd ''phoneNumber'' 13,
         fd ''patientAccountNumber'' 18]),
      (''PV1'',
        [fd ''setId'' 1, fd ''patientClass'' 2, fd ''attendingDoctor'' 7,
         fd ''billingProviderPhone'' 19, fd ''providerAddress'' 44]),
      (''PR1'',
        [fd ''setId'' 1, fd ''procedureCode'' 3, fd ''procedureDescription'' 4,
         fdDate ''procedureDate'' 5, fd ''providerName'' 11]),
      (''IN1'',
        [fd ''setId'' 1, fd ''insurancePlan'' 2, fd ''otherInsured'' 3, fd ''insuranceId'' 4,
         fd ''secondaryInsurancePlan'' 5, fd ''healthBenefitPlan'' 6, fd ''insuredName'' 16,
         fdDate ''insuredDob'' 18, fd ''insuredAddress'' 19, fd ''insuredPhoneNumber'' 20])]"

text \<open>
  \<^verbatim>\<open>
  const segmentFields: string[] = Array(Math.max(...fields.map(f => f.index)) + 1).fill('');
  fields.forEach(({ field, index, transform }) => {
    let value = segmentData[field] || '';
    if (transform) { value = transform(value); }
    segmentFields[index] = value;
  });
  \<close>
  Every index is at most the maximum, so each assignment is in range. (On an empty list of
  fields \<open>Math.max()\<close> is minus infinity and \<open>Array\<close> raises; no entry of the table is
  empty.)
\<close>

definition maxIndex :: "fieldDef list \<Rightarrow> nat" where
  "maxIndex fields = foldr max (map index fields) 0"

definition storeField :: "fieldObj \<Rightarrow> string list \<Rightarrow> fieldDef \<Rightarrow> string list" where
  "storeField segmentData segmentFields f =
     (let value = getProp segmentData (field f);
          value = (case transform f of Some t \<Rightarrow> t value | None \<Rightarrow> value)
      in segmentFields[index f := value])"

definition segmentFieldsOf :: "fieldObj \<Rightarrow> fieldDef list \<Rightarrow> string list" where
  "segmentFieldsOf segmentData fields =
     foldl (storeField segmentData) (replicate (maxIndex fields + 1) []) fields"

text \<open>One standard segment: nothing when the record has no such key.\<close>

definition standardSegment :: "hl7Obj \<Rightarrow> string \<times> fieldDef list \<Rightarrow> string list" where
  "standardSegment json def =
     (case map_of json (fst def) of
        Some segmentData \<Rightarrow> [createSegment (fst def) (segmentFieldsOf segmentData (snd def))]
      | None \<Rightarrow> [])"

subsection \<open>The OBX segments\<close>

text \<open>
  \<^verbatim>\<open>
  Object.keys(jsonDataRef.current)
    .filter(key => key.startsWith('OBX'))
    .sort((a, b) => {
      const aId = jsonDataRef.current[a]?.setId || a;
      const bId = jsonDataRef.current[b]?.setId || b;
      return aId.localeCompare(bId);
    })
    .forEach(obxKey => { ... segments.push(createSegment('OBX', segmentFields)); });
  \<close>
  This block stands in both JSON converters (CMSConverter.tsx, line 190; part_000,
  line 176). \<open>Array.prototype.sort\<close> is stable, and on a comparator that is a total
  preorder, as a collation is, it has one result: the one the stable insertion sort
  \<open>sortBy\<close> computes.
\<close>

text \<open>
  \<open>String.prototype.localeCompare\<close> is a built-in of the runtime: it compares two
  strings by the collation of the locale of the host, and is not code of the repository.
  The encoders take it as their first argument, a comparator \<open>localeCompare\<close> whose
  result is negative, zero or positive.
\<close>

type_synonym comparator = "string \<Rightarrow> string \<Rightarrow> int"

fun insertBy :: "('a \<Rightarrow> 'a \<Rightarrow> int) \<Rightarrow> 'a \<Rightarrow> 'a list \<Rightarrow> 'a list" where
  "insertBy cmp x [] = [x]"
| "insertBy cmp x (y # ys) = (if cmp x y \<le> 0 then x # y # ys else y # insertBy cmp x ys)"

definition sortBy :: "('a \<Rightarrow> 'a \<Rightarrow> int) \<Rightarrow> 'a list \<Rightarrow> 'a list" where
  "sortBy cmp xs = foldr (insertBy cmp) xs []"

definition startsWith :: "string \<Rightarrow> string \<Rightarrow> bool" where
  "startsWith p s \<longleftrightarrow> take (length p) s = p"

text \<open>\<open>jsonDataRef.current[a]?.setId || a\<close>\<close>

definition sortId :: "hl7Obj \<Rightarrow> string \<Rightarrow> string" where
  "sortId json a =
     (case map_of json a of
        Some obxData \<Rightarrow> (if getProp obxData ''setId'' \<noteq> [] then getProp obxData ''setId'' else a)
      | None \<Rightarrow> a)"

definition obxKeys :: "comparator \<Rightarrow> hl7Obj \<Rightarrow> string list" where
  "obxKeys localeCompare json =
     sortBy (\<lambda>a b. localeCompare (sortId json a) (sortId json b))
       (filter (startsWith ''OBX'') (map fst json))"

definition obxFields :: "fieldObj \<Rightarrow> string list" where
  "obxFields obxData =
     [getProp obxData ''setId'', getProp obxData ''valueType'',
      getProp obxData ''observationIdentifier'', [], getProp obxData ''observationValue'',
      [], [], [], [], [], getProp obxData ''observationStatus'']"

definition obxSegment :: "hl7Obj \<Rightarrow> string \<Rightarrow> string" where
  "obxSegment json obxKey =
     createSegment ''OBX'' (obxFields (case map_of json obxKey of Some d \<Rightarrow> d | None \<Rightarrow> []))"

definition obxSegments :: "comparator \<Rightarrow> hl7Obj \<Rightarrow> string list" where
  "obxSegments localeCompare json = map (obxSegment json) (obxKeys localeCompare json)"

text \<open>\<open>convertToHL7\<close> of the table-driven converter (part_000, line 100), on the parsed
  JSON.\<close>

definition convertToHL7 :: "comparator \<Rightarrow> hl7Obj \<Rightarrow> string" where
  "convertToHL7 localeCompare json =
     join [CHR 0x0A]
       (concat (map (standardSegment json) segmentDefinitions) @ obxSegments localeCompare json)"

section \<open>The table-driven decoder\<close>

text \<open>Decimal numerals, as the template \<^verbatim>\<open>`field${index + 1}`\<close> prints them.\<close>

definition digitChar :: "nat \<Rightarrow> char" where
  "digitChar n = (''0123456789'' ! (n mod 10))"

function showNat :: "nat \<Rightarrow> string" where
  "showNat n = (if n < 10 then [digitChar n] else showNat (n div 10) @ [digitChar n])"
  by pat_completeness auto
termination
  by (relation "measure id") auto

declare showNat.simps [simp del]

text \<open>The table \<open>segmentFieldMappings\<close> of \<open>convertHL7ToJson\<close> (part_000, lines 213 to
  269).\<close>

definition segmentFieldMappings :: "(string \<times> (string \<times> string) list) list" where
  "segmentFieldMappings =
     [(''MSH'',
        [(''field1'', ''encodingCharacters''), (''field2'', ''sendingApplication''),
         (''field3'', ''sendingFacility''), (''field4'', ''receivingApplication''),
         (''field5'', ''receivingFacility''), (''field6'', ''dateTime''),
         (''field8'', ''messageType''), (''field9'', ''controlId''),
         (''field10'', ''processingId''), (''field11'', ''versionId'')]),
      (''PID'',
        [(''field1'', ''setId''), (''field3'', ''patientId''), (''field5'', ''patientName''),
         (''field7'', ''dob''), (''field8'', ''gender''), (''field11'', ''address''),
         (''field13'', ''phoneNumber''), (''field18'', ''patientAccountNumber'')]),
      (''PV1'',
        [(''field1'', ''setId''), (''field2'', ''patientClass''),
         (''field7'', ''attendingDoctor''), (''field19'', ''billingProviderPhone''),
         (''field44'', ''providerAddress'')]),
      (''PR1'',
        [(''field1'', ''setId''), (''field3'', ''procedureCode''),
         (''field4'', ''procedureDescription''), (''field5'', ''procedureDate''),
         (''field11'', ''providerName'')]),
      (''IN1'',
        [(''field1'', ''setId''), (''field2'', ''insurancePlan''), (''field3'', ''otherInsured''),
         (''field4'', ''insuranceId''), (''field5'', ''secondaryInsurancePlan''),
         (''field6'', ''healthBenefitPlan''), (''field16'', ''insuredName''),
         (''field18'', ''insuredDob''), (''field19'', ''insuredAddress''),
         (''field20'', ''insuredPhoneNumber'')]),
      (''OBX'',
        [(''field1'', ''setId''), (''field2'', ''valueType''),
         (''field3'', ''observationIdentifier''), (''field5'', ''observationValue''),
         (''field11'', ''observationStatus'')])]"

text \<open>
  \<^verbatim>\<open>
  for (const line of lines) {
    const [segmentType, ...fields] = line.split("|");
    let segmentKey = segmentType;
    let segmentData: { [key: string]: string } = {};
    if (segmentType === "OBX" && fields[0]) {
      const setId = fields[0];
      segmentKey = `OBX${setId}`;
    }
    const mappings = segmentFieldMappings[segmentType] || {};
    fields.forEach((field, index) => {
      const fieldKey = mappings[`field${index + 1}`] || `field${index + 1}`;
      segmentData[fieldKey] = field || "";
    });
    jsonOutput[segmentKey] = segmentData;
  }
  \<close>
  The names a field is stored under are those of the table and the generic names
  \<open>field<N>\<close>, never \<open>__proto__\<close>; the segment key is whatever the line begins with.
\<close>

definition fieldKeyOf :: "(string \<times> string) list \<Rightarrow> nat \<Rightarrow> string" where
  "fieldKeyOf mappings idx =
     (case map_of mappings (''field'' @ showNat (idx + 1)) of
        Some name \<Rightarrow> (if name \<noteq> [] then name else ''field'' @ showNat (idx + 1))
      | None \<Rightarrow> ''field'' @ showNat (idx + 1))"

fun fieldsForEach :: "(string \<times> string) list \<Rightarrow> string list \<Rightarrow> nat \<Rightarrow> fieldMap \<Rightarrow> fieldMap" where
  "fieldsForEach mappings [] idx segmentData = segmentData"
| "fieldsForEach mappings (f # fs) idx segmentData =
     fieldsForEach mappings fs (idx + 1) (segmentData(fieldKeyOf mappings idx \<mapsto> f))"

definition segmentKeyOf :: "string \<Rightarrow> string list \<Rightarrow> string" where
  "segmentKeyOf segmentType fields =
     (if segmentType = ''OBX'' \<and> orEmpty (nthOpt fields 0) \<noteq> []
      then ''OBX'' @ orEmpty (nthOpt fields 0) else segmentType)"

text \<open>\<open>segmentFieldMappings[segmentType] || {}\<close>. (Under a type the table object
  inherits, such as \<open>constructor\<close>, the value is no table and has no property
  \<open>field<N>\<close>: it names the fields as \<open>{}\<close> does.)\<close>

definition mappingsFor :: "(string \<times> (string \<times> string) list) list \<Rightarrow> string \<Rightarrow> (string \<times> string) list" where
  "mappingsFor table segmentType = (case map_of table segmentType of Some m \<Rightarrow> m | None \<Rightarrow> [])"

definition decodeLine :: "hl7Json \<Rightarrow> string \<Rightarrow> hl7Json" where
  "decodeLine jsonOutput line =
     (case split CHR ''|'' line of
        segmentType # fields \<Rightarrow>
          assign jsonOutput (segmentKeyOf segmentType fields)
            (fieldsForEach (mappingsFor segmentFieldMappings segmentType) fields 0 Map.empty)
      | [] \<Rightarrow> jsonOutput)"

text \<open>\<open>hl7.split("\n").filter(line => line.trim())\<close>\<close>

definition wireLines :: "string \<Rightarrow> string list" where
  "wireLines hl7 = filter trimTruthy (split (CHR 0x0A) hl7)"

definition convertHL7ToJson :: "string \<Rightarrow> hl7Json" where
  "convertHL7ToJson hl7 = foldl decodeLine Map.empty (wireLines hl7)"

section \<open>The decoder of CMSConverter.tsx\<close>

text \<open>
  \<open>convertHL7ToJson\<close> of CMSConverter.tsx (line 222) names the fields in a \<open>switch\<close>
  on the segment type: each known type gets an object literal of its fields,
  \<open>fields[i] || ""\<close> for each, and any other type gets \<^verbatim>\<open>field${index}\<close> for the
  array index of each field.
  \<^verbatim>\<open>
  for (const line of lines) {
    const [segmentType, ...fields] = line.split("|");
    if (!jsonOutput[segmentType]) { jsonOutput[segmentType] = {}; }
    switch (segmentType) {
      case "MSH": jsonOutput[segmentType] = { encodingCharacters: fields[0] || "", ... }; break;
      ...
      case "OBX":
        const setId = fields[0] || "0";
        jsonOutput[`OBX${setId === '0' ? '' : setId}`] = { setId: fields[0] || "", ... };
        break;
      default:
        jsonOutput[segmentType] = fields.reduce((acc, field, index) => {
          acc[`field${index}`] = field; return acc; }, {});
    }
  }
  \<close>
\<close>

text \<open>\<open>fields[i] || ""\<close>\<close>

definition fld :: "string list \<Rightarrow> nat \<Rightarrow> string" where
  "fld fields i = orEmpty (nthOpt fields i)"

text \<open>An object literal: the names in the order of the source, each with the index it reads.\<close>

definition objectOf :: "(string \<times> nat) list \<Rightarrow> string list \<Rightarrow> fieldMap" where
  "objectOf names fields = map_of (map (\<lambda>(name, i). (name, fld fields i)) names)"

fun fieldsReduce :: "string list \<Rightarrow> nat \<Rightarrow> fieldMap \<Rightarrow> fieldMap" where
  "fieldsReduce [] idx acc = acc"
| "fieldsReduce (f # fs) idx acc = fieldsReduce fs (idx + 1) (acc(''field'' @ showNat idx \<mapsto> f))"

definition switchNames :: "(string \<times> (string \<times> nat) list) list" where
  "switchNames =
     [(''MSH'',
        [(''encodingCharacters'', 0), (''sendingApplication'', 1), (''sendingFacility'', 2),
         (''receivingApplication'', 3), (''receivingFacility'', 4), (''dateTime'', 5),
         (''messageType'', 7), (''controlId'', 8), (''processingId'', 9), (''versionId'', 10)]),
      (''PID'',
        [(''setId'', 0), (''patientId'', 2), (''patientName'', 4), (''dob'', 6), (''gender'', 7),
         (''address'', 10), (''phoneNumber'', 12), (''patientAccountNumber'', 17)]),
      (''PV1'',
        [(''setId'', 0), (''patientClass'', 1), (''attendingDoctor'', 6),
         (''providerPhoneNumber'', 18)]),
      (''PR1'',
        [(''setId'', 0), (''procedureCode'', 2), (''procedureDescription'', 3),
         (''procedureDate'', 4), (''providerName'', 10)]),
      (''IN1'',
        [(''setId'', 0), (''insurancePlan'', 1), (''otherInsured'', 2), (''insuranceId'', 3),
         (''secondaryInsurancePlan'', 4), (''insuredName'', 15), (''insuredDob'', 17),
         (''insuredAddress'', 18), (''insuredPhoneNumber'', 19)]),
      (''OBX'',
        [(''setId'', 0), (''valueType'', 1), (''observationIdentifier'', 2),
         (''observationValue'', 4), (''observationStatus'', 10)])]"

definition switchKey :: "string \<Rightarrow> string list \<Rightarrow> string" where
  "switchKey segmentType fields =
     (if segmentType = ''OBX'' then
        (let setId = (if fld fields 0 \<noteq> [] then fld fields 0 else ''0'')
         in ''OBX'' @ (if setId = ''0'' then [] else setId))
      else segmentType)"

definition switchData :: "(string \<times> (string \<times> nat) list) list \<Rightarrow> string \<Rightarrow> string list \<Rightarrow> fieldMap" where
  "switchData cases segmentType fields =
     (case map_of cases segmentType of
        Some names \<Rightarrow> objectOf names fields
      | None \<Rightarrow> fieldsReduce fields 0 Map.empty)"

text \<open>
  \<open>!jsonOutput[segmentType]\<close> also sees a property the object inherits (under the
  type \<open>constructor\<close>, say); then no empty entry is created first, but the case that
  follows assigns under the same key, so the record is the same. Only the OBX case assigns
  under another key, and the object inherits nothing named \<open>OBX\<close>.
\<close>

definition decodeLine_switch :: "hl7Json \<Rightarrow> string \<Rightarrow> hl7Json" where
  "decodeLine_switch jsonOutput line =
     (case split CHR ''|'' line of
        segmentType # fields \<Rightarrow>
          (let out = (if jsonOutput segmentType = None
                      then assign jsonOutput segmentType Map.empty else jsonOutput)
           in assign out (switchKey segmentType fields)
                (switchData switchNames segmentType fields))
      | [] \<Rightarrow> jsonOutput)"

definition convertHL7ToJson_switch :: "string \<Rightarrow> hl7Json" where
  "convertHL7ToJson_switch hl7 = foldl decodeLine_switch Map.empty (wireLines hl7)"

section \<open>The converter of the scanned form (part_000, line 680)\<close>

subsection \<open>Its decoder\<close>

text \<open>
  \<open>convertHL7ToJson\<close> of the form converter (part_000, line 963) is the same
  \<open>switch\<close> with other indices, a case for DG1, no filter of blank lines, no suffix on
  the OBX key, and \<open>jsonOutput[segmentType] = {}\<close> before every case.
\<close>

definition cms1500Names :: "(string \<times> (string \<times> nat) list) list" where
  "cms1500Names =
     [(''MSH'',
        [(''encodingCharacters'', 0), (''sendingApplication'', 1), (''sendingFacility'', 2),
         (''receivingApplication'', 3), (''receivingFacility'', 4), (''dateTime'', 5),
         (''messageType'', 7), (''controlId'', 8), (''processingId'', 9), (''versionId'', 10)]),
      (''PID'',
        [(''setId'', 0), (''patientId'', 2), (''patientName'', 4), (''dob'', 6), (''gender'', 7),
         (''address'', 10)]),
      (''PV1'',
        [(''setId'', 0), (''patientClass'', 1), (''attendingDoctor'', 7),
         (''providerAddress'', 9)]),
      (''DG1'',
        [(''setId'', 0), (''diagnosisCode'', 2), (''diagnosisDescription'', 3),
         (''codingMethod'', 4)]),
      (''PR1'',
        [(''setId'', 0), (''procedureCode'', 2), (''procedureDescription'', 3),
         (''procedureDate'', 4), (''providerName'', 10)]),
      (''IN1'',
        [(''setId'', 0), (''insurancePlan'', 2), (''insuranceId'', 3), (''insuredName'', 15),
         (''insuredDob'', 16), (''insuredAddress'', 17)]),
      (''OBX'',
        [(''setId'', 0), (''valueType'', 1), (''observationIdentifier'', 2),
         (''observationValue'', 4), (''observationStatus'', 10)])]"

definition decodeLine_cms1500 :: "hl7Json \<Rightarrow> string \<Rightarrow> hl7Json" where
  "decodeLine_cms1500 jsonOutput line =
     (case split CHR ''|'' line of
        segmentType # fields \<Rightarrow>
          assign (assign jsonOutput segmentType Map.empty) segmentType
            (switchData cms1500Names segmentType fields)
      | [] \<Rightarrow> jsonOutput)"

definition convertHL7ToJson_cms1500 :: "string \<Rightarrow> hl7Json" where
  "convertHL7ToJson_cms1500 hl7 = foldl decodeLine_cms1500 Map.empty (split (CHR 0x0A) hl7)"

subsection \<open>Its formatDate\<close>

text \<open>
  \<^verbatim>\<open>
  const formatDate = (dateStr: string) => {
    const [month, day, year] = dateStr.split("/");
    const formatted = `${year}${month.padStart(2, "0")}${day.padStart(2, "0")}`;
    return /^[0-9]{8}$/.test(formatted) ? formatted : "20250101";
  };
  \<close>
  With no \<open>/\<close> in the input \<open>day\<close> is \<open>undefined\<close> and \<open>day.padStart\<close> raises a
  TypeError; with one \<open>/\<close> only, \<open>year\<close> is \<open>undefined\<close> and the template prints it.
\<close>

datatype jsError = TypeError

definition formatDate_cms1500 :: "string \<Rightarrow> jsError + string" where
  "formatDate_cms1500 dateStr =
     (case split CHR ''/'' dateStr of
        month # day # rest \<Rightarrow>
          (let year = (case rest of y # _ \<Rightarrow> y | [] \<Rightarrow> ''undefined'');
               formatted = year @ padStart 2 (CHR ''0'') month @ padStart 2 (CHR ''0'') day
           in Inr (if isDate8 formatted then formatted else ''20250101''))
      | _ \<Rightarrow> Inl TypeError)"

section \<open>The text converter (fixed_converter.tsx)\<close>

text \<open>
  \<^verbatim>\<open>
  const parseCMS1500Text = (text: string): Record<string, string> => {
    const data: Record<string, string> = {};
    text.split("\n").forEach((line) => {
      const [key, value] = line.split(":");
      if (key && value) { data[key.trim()] = value.trim(); }
    });
    return data;
  };
  const toHl7Format = (data: Record<string, string>) => {
    const HL7_SEGMENTS = [
      `MSH|^~\\&|CMS1500App|Hospital|HL7Receiver|HL7Facility|${new Date().toISOString()}||ADT^A01|MSG00001|P|2.5`,
      `PID|||${data.insurance_id || ""}||${data.pt_name || ""}||${data.birth_yy || ""}${data.birth_mm || ""}${data.birth_dd || ""}|${data.sex?.charAt(0) || ""}|||${data.pt_city || ""}^${data.pt_state || ""}`,
      `IN1|||${data.insurance_name || ""}||${data.insurance_id || ""}`,
      `PV1||O|Clinic||||${data.physician_signature || ""}|||||||||||${data.physician_date || ""}`
    ];
    return HL7_SEGMENTS.join("\n");
  };
  \<close>
  \<open>new Date().toISOString()\<close> reads the clock of the host. The reading is an argument of
  the model: \<open>now\<close> is the text the clock gives at the call.
\<close>

definition trim :: "string \<Rightarrow> string" where
  "trim s = rev (dropWhile isSpace (rev (dropWhile isSpace s)))"

definition parseLine :: "fieldMap \<Rightarrow> string \<Rightarrow> fieldMap" where
  "parseLine data line =
     (case split CHR '':'' line of
        key # value # _ \<Rightarrow>
          (if key \<noteq> [] \<and> value \<noteq> [] then assign data (trim key) (trim value) else data)
      | _ \<Rightarrow> data)"

definition parseCMS1500Text :: "string \<Rightarrow> fieldMap" where
  "parseCMS1500Text text = foldl parseLine Map.empty (split (CHR 0x0A) text)"

definition toHl7Format :: "string \<Rightarrow> fieldMap \<Rightarrow> string" where
  "toHl7Format now data =
     join [CHR 0x0A]
       [''MSH|^~'' @ [CHR 0x5C] @ ''&|CMS1500App|Hospital|HL7Receiver|HL7Facility|'' @ now
          @ ''||ADT^A01|MSG00001|P|2.5'',
        ''PID|||'' @ orEmpty (data ''insurance_id'') @ ''||'' @ orEmpty (data ''pt_name'') @ ''||''
          @ orEmpty (data ''birth_yy'') @ orEmpty (data ''birth_mm'') @ orEmpty (data ''birth_dd'')
          @ ''|'' @ take 1 (orEmpty (data ''sex'')) @ ''|||'' @ orEmpty (data ''pt_city'') @ ''^''
          @ orEmpty (data ''pt_state''),
        ''IN1|||'' @ orEmpty (data ''insurance_name'') @ ''||'' @ orEmpty (data ''insurance_id''),
        ''PV1||O|Clinic||||'' @ orEmpty (data ''physician_signature'') @ ''|||||||||||''
          @ orEmpty (data ''physician_date'')]"

text \<open>\<open>handleConvertClick\<close>: parse the text, then format it.\<close>

definition convertText :: "string \<Rightarrow> string \<Rightarrow> string" where
  "convertText now text = toHl7Format now (parseCMS1500Text text)"

section \<open>The path-driven encoder of CMSConverter.tsx\<close>

text \<open>
  \<open>convertToHL7\<close> of CMSConverter.tsx (line 170) lists every slot of a segment in the
  table \<open>hl7Mappings\<close>: a slot is a path into the record (\<open>{ path: 'PID.setId' }\<close>),
  a path with \<open>formatDate\<close> as its transform, or a constant (\<open>{ value: '' }\<close>).
  \<^verbatim>\<open>
  Object.entries(hl7Mappings).forEach(([segmentName, fields]) => {
    const segmentFields = fields.map(field => {
      let value = field.path ? getNestedValue(jsonDataRef.current, field.path) : field.value || '';
      if (field.transform) { value = field.transform(value, jsonDataRef.current); }
      return value;
    });
    segments.push(createSegment(segmentName, segmentFields));
  });
  \<close>
  A path \<open>'PID.setId'\<close> is kept as the pair of its two keys; \<open>getNestedValue\<close> reads
  the segment, then the field, and gives \<open>''\<close> where either is missing.
\<close>

datatype fieldMapping = Path string string | PathDate string string | Value string

definition getNestedValue :: "hl7Obj \<Rightarrow> string \<Rightarrow> string \<Rightarrow> string" where
  "getNestedValue obj seg name =
     (case map_of obj seg of Some segmentData \<Rightarrow> getProp segmentData name | None \<Rightarrow> [])"

fun mappingValue :: "hl7Obj \<Rightarrow> fieldMapping \<Rightarrow> string" where
  "mappingValue json (Path seg name) = getNestedValue json seg name"
| "mappingValue json (PathDate seg name) = formatDate (getNestedValue json seg name)"
| "mappingValue json (Value v) = v"

definition hl7Mappings :: "(string \<times> fieldMapping list) list" where
  "hl7Mappings =
     [(''MSH'',
        [Path ''MSH'' ''encodingCharacters'', Value [], Path ''MSH'' ''sendingApplication'',
         Path ''MSH'' ''sendingFacility'', Path ''MSH'' ''receivingApplication'',
         Path ''MSH'' ''receivingFacility'', PathDate ''MSH'' ''dateTime'', Value [],
         Path ''MSH'' ''messageType'', Path ''MSH'' ''controlId'', Path ''MSH'' ''processingId'',
         Path ''MSH'' ''versionId'']),
      (''PID'',
        [Path ''PID'' ''setId'', Value [], Path ''PID'' ''patientId'', Value [],
         Path ''PID'' ''patientName'', Value [], PathDate ''PID'' ''dob'', Path ''PID'' ''gender'',
         Value [], Value [], Path ''PID'' ''address'', Value [], Path ''PID'' ''phoneNumber'',
         Value [], Value [], Value [], Value [], Path ''PID'' ''patientAccountNumber'']),
      (''PV1'',
        [Path ''PV1'' ''setId'', Path ''PV1'' ''patientClass'', Value [], Value [], Value [],
         Value [], Path ''PV1'' ''attendingDoctor'', Value [], Value [], Value [], Value [],
         Value [], Value [], Value [], Value [], Value [], Value [], Value [],
         Path ''PV1'' ''providerPhoneNumber'']),
      (''PR1'',
        [Path ''PR1'' ''setId'', Value [], Path ''PR1'' ''procedureCode'',
         Path ''PR1'' ''procedureDescription'', PathDate ''PR1'' ''procedureDate'', Value [],
         Value [], Value [], Value [], Value [], Path ''PR1'' ''providerName'']),
      (''IN1'',
        [Path ''IN1'' ''setId'', Path ''IN1'' ''insurancePlan'', Path ''IN1'' ''otherInsured'',
         Path ''IN1'' ''insuranceId'', Path ''IN1'' ''secondaryInsurancePlan'', Value [],
         Value [], Value [], Value [], Value [], Value [], Value [], Value [], Value [],
         Value [], Path ''IN1'' ''insuredName'', Value [], PathDate ''IN1'' ''insuredDob'',
         Path ''IN1'' ''insuredAddress'', Path ''IN1'' ''insuredPhoneNumber''])]"

definition pathSegment :: "hl7Obj \<Rightarrow> string \<times> fieldMapping list \<Rightarrow> string" where
  "pathSegment json def = createSegment (fst def) (map (mappingValue json) (snd def))"

definition convertToHL7_paths :: "comparator \<Rightarrow> hl7Obj \<Rightarrow> string" where
  "convertToHL7_paths localeCompare json =
     join [CHR 0x0A] (map (pathSegment json) hl7Mappings @ obxSegments localeCompare json)"

section \<open>The field extractor of the form converter\<close>

text \<open>
  \<open>extractDataFromPDF\<close> (part_000, line 787) joins the text of the pages, cleans it,
  rejects what cannot be a form, and then runs the table \<open>fieldExtractors\<close> over it.
  \<^verbatim>\<open>
  const normalizedText = allText
    .replace(/\s+/g, " ")
    .replace(/[^a-zA-Z0-9\s.,-/+]/g, " ")
    .trim();
  if (normalizedText.length < 50 || !/(patient|insured|dob|service|provider)/i.test(normalizedText)) {
    throw new Error("No valid CMS-1500 data detected. ...");
  }
  \<close>
  In the character class \<open>,-/\<close> is the range from the comma to the slash.
\<close>

definition isAlpha :: "char \<Rightarrow> bool" where
  "isAlpha c \<longleftrightarrow> c \<in> set ''abcdefghijklmnopqrstuvwxyzABCDEFGHIJKLMNOPQRSTUVWXYZ''"

function replaceRuns :: "(char \<Rightarrow> bool) \<Rightarrow> string \<Rightarrow> string \<Rightarrow> string" where
  "replaceRuns P r [] = []"
| "replaceRuns P r (c # cs) =
     (if P c then r @ replaceRuns P r (dropWhile P cs) else c # replaceRuns P r cs)"
  by pat_completeness auto
termination
  by (relation "measure (\<lambda>(P, r, s). length s)") (auto simp: length_dropWhile_le less_Suc_eq_le)

definition allowedChar :: "char \<Rightarrow> bool" where
  "allowedChar c \<longleftrightarrow> isAlpha c \<or> isDigit c \<or> isSpace c \<or> c \<in> set ''.,-./+''"

definition normalizeText :: "string \<Rightarrow> string" where
  "normalizeText allText =
     trim (map (\<lambda>c. if allowedChar c then c else CHR '' '') (replaceRuns isSpace '' '' allText))"

definition toLower :: "char \<Rightarrow> char" where
  "toLower c =
     (case map_of (zip ''ABCDEFGHIJKLMNOPQRSTUVWXYZ'' ''abcdefghijklmnopqrstuvwxyz'') c of
        Some l \<Rightarrow> l | None \<Rightarrow> c)"

fun contains :: "string \<Rightarrow> string \<Rightarrow> bool" where
  "contains [] k = (k = [])"
| "contains (c # cs) k = (startsWith k (c # cs) \<or> contains cs k)"

definition hasKeyword :: "string \<Rightarrow> bool" where
  "hasKeyword text =
     list_ex (contains (map toLower text)) [''patient'', ''insured'', ''dob'', ''service'', ''provider'']"

subsection \<open>The table of extractors\<close>

text \<open>
  Each entry of \<open>fieldExtractors\<close> has a key, a regular expression, an optional
  fallback expression and an optional mark \<open>required\<close>. The regular expressions are run
  by the engine of the runtime, which is not code of the repository: the model names an
  expression by the key of its entry (\<open>Regex key\<close>, \<open>FallbackRegex key\<close>) and takes
  the engine as an argument \<open>rx\<close>, where \<open>rx p text\<close> is the result of
  \<open>text.match(p)\<close>: \<open>None\<close> for \<open>null\<close>, otherwise the captured groups
  \<open>match[1]\<close>, \<open>match[2]\<close>, ... (\<open>None\<close> for a group that took no part).
  \<^verbatim>\<open>
  { key: "patientName",  regex: /(?:PATIENT\s*NAME|PATIENT\s*:|2\.\s*)([A-Z][a-zA-Z]+(?:,\s*[A-Z][a-zA-Z]+)?(?:\s+[A-Z][a-zA-Z]+)?)/i,
    required: true, fallback: /(Davis\s+John|hood\s+Michael)/i },
  { key: "insuranceId",  regex: /(?:INSURED\s*ID|ID\s*NUMBER|MEMBER\s*ID|1a\.\s*)([0-9A-Za-z]{5,15})/i,
    required: true, fallback: /(234567|123456)/i },
  { key: "dob",          regex: /(?:BIRTH|DOB|3\.\s*)(\d{2})[\s\/-](\d{2})[\s\/-](\d{4})/i,
    fallback: /(05\s*16\s*(1990|2002))/i },
  { key: "providerName", regex: /(?:PHYSICIAN|PROVIDER|RENDERING|33\.\s*|24J\.\s*)(?:Dr\.?\s*)?([A-Z][a-zA-Z]+(?:,\s*[A-Z][a-zA-Z]+)?)/i,
    fallback: /(Dr\.\s*IT\s+Twilight)/i },
  { key: "serviceDate",  regex: /(?:SERVICE\s*DATE|DATE\s*OF\s*SERVICE|24A\.\s*|)(\d{2})[\/-](\d{2})[\/-](\d{4})/i,
    required: true, fallback: /(05\/16\/2025)/i },
  { key: "patientAddress", regex: /(?:ADDRESS|5\.\s*)(\d+\s+[A-Za-z\s]+,\s*[A-Z]{2}\s*\d{5}(?:-\d{4})?)/i,
    fallback: /(18240\s+Midway\s+Road\s+Dallas\s+TX\s+75287)/i },
  { key: "diagnosis",    regex: /(?:DIAGNOSIS|21\.\s*|)(\d{5}|[A-Z]\d{2}(?:\.\d{0,2})?)/i,
    required: true, fallback: /(90832)/i },
  { key: "diagnosisDescription", regex: /(?:DIAGNOSIS.*?\s(?:\d{5}|[A-Z]\d{2}(?:\.\d{0,2})?)\s+)([A-Za-z\s,][^\d]*)/i },
  { key: "procedureCode", regex: /(?:PROCEDURE|24D\.\s*)(\d{5})/i, fallback: /(90832)/i },
  { key: "providerAddress", regex: /(?:BILLING.*?\s*ADDRESS|33\.\s*)(\d+\s+[A-Za-z\s]+,\s*[A-Z]{2}\s*\d{5}(?:-\d{4})?)/i,
    fallback: /(1720\s+Oak\s+Village\s+Boulevard\s+Suite\s+200-B\s+Texas\s+89787)/i },
  { key: "phoneNumber",  regex: /(?:PHONE|5\.\s*|33\.\s*)\+?(?:1|\d{2})?\s*(\d{10,12})/i,
    fallback: /(\+1\s*919347895935|\+1\s*9010193577)/i },
  { key: "insurancePlan", regex: /(?:INSURANCE\s*PLAN|1\.\s*|11c\.\s*)([A-Za-z\s]+)/i,
    fallback: /(AmeriHealth|Affinity\s+Health\s+Plan)/i },
  \<close>
\<close>

datatype pattern = Regex string | FallbackRegex string

type_synonym groups = "string option list"
type_synonym engine = "pattern \<Rightarrow> string \<Rightarrow> groups option"

datatype extractor = Extractor (key: string) (required: bool) (fallback: bool)

definition fieldExtractors :: "extractor list" where
  "fieldExtractors =
     [Extractor ''patientName'' True True,
      Extractor ''insuranceId'' True True,
      Extractor ''dob'' False True,
      Extractor ''providerName'' False True,
      Extractor ''serviceDate'' True True,
      Extractor ''patientAddress'' False True,
      Extractor ''diagnosis'' True True,
      Extractor ''diagnosisDescription'' False False,
      Extractor ''procedureCode'' False True,
      Extractor ''providerAddress'' False True,
      Extractor ''phoneNumber'' False True,
      Extractor ''insurancePlan'' False True]"

subsection \<open>One extractor\<close>

text \<open>
  \<^verbatim>\<open>
  fieldExtractors.forEach(({ key, regex, required, fallback }) => {
    let match = normalizedText.match(regex);
    if (!match && fallback) { match = normalizedText.match(fallback); }
    if (match) {
      if (key === "dob" || key === "serviceDate") {
        let month, day, year;
        if (match[3]) { month = match[1]; day = match[2]; year = match[3]; }
        else {
          const dateParts = match[1].replace(/\s+/g, "/").split("/");
          month = dateParts[0].padStart(2, "0");
          day = dateParts[1].padStart(2, "0");
          year = dateParts[2];
        }
        const parsedYear = parseInt(year, 10);
        if (parsedYear >= 1900 && parsedYear <= 2025) {
          extractedData[key] = `${month}/${day}/${year}`;
          if (required) requiredFieldsFound++;
        }
      } else {
        extractedData[key] = match[1].trim();
        if (required) requiredFieldsFound++;
      }
    } else if (required) {
      missingRequiredFields.push(key);
    }
  });
  \<close>
  A method called on \<open>undefined\<close> raises a TypeError; a template prints
  \<open>undefined\<close> as the word; \<open>parseInt\<close> of a text with no leading number is NaN,
  which is in no range.
\<close>

text \<open>\<open>match[i]\<close> for \<open>i\<close> from 1.\<close>

definition grp :: "groups \<Rightarrow> nat \<Rightarrow> string option" where
  "grp m i = (case nthOpt m (i - 1) of Some g \<Rightarrow> g | None \<Rightarrow> None)"

fun printed :: "string option \<Rightarrow> string" where
  "printed None = ''undefined''"
| "printed (Some v) = v"

definition digitVal :: "char \<Rightarrow> nat" where
  "digitVal c = length (takeWhile (\<lambda>d. d \<noteq> c) ''0123456789'')"

definition parseInt :: "string \<Rightarrow> int option" where
  "parseInt s =
     (let t = dropWhile isSpace s;
          neg = (t \<noteq> [] \<and> hd t = CHR ''-'');
          u = (if t \<noteq> [] \<and> (hd t = CHR ''-'' \<or> hd t = CHR ''+'') then tl t else t);
          ds = takeWhile isDigit u
      in if ds = [] then None
         else Some ((if neg then - 1 else 1) * int (foldl (\<lambda>a c. 10 * a + digitVal c) 0 ds)))"

datatype extraction =
  Extraction (extractedData: fieldMap) (missingRequiredFields: "string list")
    (requiredFieldsFound: nat)

text \<open>The month, the day and the year of a date match.\<close>

definition dateOfMatch :: "groups \<Rightarrow> jsError + (string \<times> string \<times> string option)" where
  "dateOfMatch m =
     (if orEmpty (grp m 3) \<noteq> [] then Inr (printed (grp m 1), printed (grp m 2), grp m 3)
      else
        (case grp m 1 of
           None \<Rightarrow> Inl TypeError
         | Some g \<Rightarrow>
             (case split CHR ''/'' (replaceRuns isSpace ''/'' g) of
                mm # dd # rest \<Rightarrow>
                  Inr (padStart 2 (CHR ''0'') mm, padStart 2 (CHR ''0'') dd,
                       (case rest of y # _ \<Rightarrow> Some y | [] \<Rightarrow> None))
              | _ \<Rightarrow> Inl TypeError)))"

definition found :: "extraction \<Rightarrow> extractor \<Rightarrow> string \<Rightarrow> extraction" where
  "found st e v =
     Extraction ((extractedData st)(key e \<mapsto> v)) (missingRequiredFields st)
       (if required e then requiredFieldsFound st + 1 else requiredFieldsFound st)"

definition matchOf :: "engine \<Rightarrow> string \<Rightarrow> extractor \<Rightarrow> groups option" where
  "matchOf rx normalizedText e =
     (case rx (Regex (key e)) normalizedText of
        Some m \<Rightarrow> Some m
      | None \<Rightarrow> (if fallback e then rx (FallbackRegex (key e)) normalizedText else None))"

definition extractField :: "engine \<Rightarrow> string \<Rightarrow> extraction \<Rightarrow> extractor \<Rightarrow> jsError + extraction" where
  "extractField rx normalizedText st e =
     (case matchOf rx normalizedText e of
        Some m \<Rightarrow>
          (if key e = ''dob'' \<or> key e = ''serviceDate'' then
             (case dateOfMatch m of
                Inl err \<Rightarrow> Inl err
              | Inr (month, day, year) \<Rightarrow>
                  (case (case year of Some y \<Rightarrow> parseInt y | None \<Rightarrow> None) of
                     Some parsedYear \<Rightarrow>
                       (if 1900 \<le> parsedYear \<and> parsedYear \<le> 2025
                        then Inr (found st e (month @ ''/'' @ day @ ''/'' @ printed year))
                        else Inr st)
                   | None \<Rightarrow> Inr st))
           else
             (case grp m 1 of
                None \<Rightarrow> Inl TypeError
              | Some g \<Rightarrow> Inr (found st e (trim g))))
      | None \<Rightarrow>
          (if required e
           then Inr (Extraction (extractedData st) (missingRequiredFields st @ [key e])
                       (requiredFieldsFound st))
           else Inr st))"

fun extractAll :: "engine \<Rightarrow> string \<Rightarrow> extraction \<Rightarrow> extractor list \<Rightarrow> jsError + extraction" where
  "extractAll rx normalizedText st [] = Inr st"
| "extractAll rx normalizedText st (e # es) =
     (case extractField rx normalizedText st e of
        Inl err \<Rightarrow> Inl err
      | Inr st' \<Rightarrow> extractAll rx normalizedText st' es)"

subsection \<open>The quorum and the defaults\<close>

text \<open>
  \<^verbatim>\<open>
  if (requiredFieldsFound < 4) {
    throw new Error(`Insufficient required data extracted from CMS-1500 form. Missing fields: ${missingRequiredFields.join(", ")}.`);
  }
  if (!extractedData.dob) extractedData.dob = "01/01/1900";
  if (!extractedData.providerName) extractedData.providerName = "Unknown Provider";
  ...
  return extractedData as CMS1500Data;
  \<close>
  Every error is caught at the end of the function and thrown again with its message
  after \<open>PDF extraction failed:\<close>; the model keeps the kind of the error.
\<close>

datatype extractError =
  NoValidData
| InsufficientRequiredData "string list"
| Thrown jsError

definition orDefault :: "string \<Rightarrow> string \<Rightarrow> fieldMap \<Rightarrow> fieldMap" where
  "orDefault name v data = (if orEmpty (data name) = [] then data(name \<mapsto> v) else data)"

definition withDefaults :: "fieldMap \<Rightarrow> fieldMap" where
  "withDefaults data =
     orDefault ''insurancePlan'' ''Unknown Plan''
       (orDefault ''phoneNumber'' ''Unknown''
         (orDefault ''providerAddress'' ''Unknown Provider Address''
           (orDefault ''procedureCode'' ''00000''
             (orDefault ''diagnosisDescription'' ''Illness, unspecified''
               (orDefault ''patientAddress'' ''Unknown Address''
                 (orDefault ''providerName'' ''Unknown Provider''
                   (orDefault ''dob'' ''01/01/1900'' data)))))))"

definition extractData :: "engine \<Rightarrow> string \<Rightarrow> extractError + fieldMap" where
  "extractData rx allText =
     (let normalizedText = normalizeText allText
      in if length normalizedText < 50 \<or> \<not> hasKeyword normalizedText then Inl NoValidData
         else
           (case extractAll rx normalizedText (Extraction Map.empty [] 0) fieldExtractors of
              Inl err \<Rightarrow> Inl (Thrown err)
            | Inr st \<Rightarrow>
                (if requiredFieldsFound st < 4
                 then Inl (InsufficientRequiredData (missingRequiredFields st))
                 else Inr (withDefaults (extractedData st)))))"

section \<open>Notions used in the statements\<close>

text \<open>
  The shape \<open><1-2 digits><sep><1-2 digits><sep><4 digits>\<close> of the specification of
  the date normalizer, with the separators \<open>-\<close> and \<open>/\<close>: the three groups and
  the two separators of a text \<open>month @ [s1] @ day @ [s2] @ year\<close>.
\<close>

definition dateShape :: "string \<Rightarrow> char \<Rightarrow> string \<Rightarrow> char \<Rightarrow> string \<Rightarrow> bool" where
  "dateShape month s1 day s2 year \<longleftrightarrow>
     (length month = 1 \<or> length month = 2) \<and> list_all isDigit month \<and>
     (s1 = CHR ''-'' \<or> s1 = CHR ''/'') \<and>
     (length day = 1 \<or> length day = 2) \<and> list_all isDigit day \<and>
     (s2 = CHR ''-'' \<or> s2 = CHR ''/'') \<and>
     length year = 4 \<and> list_all isDigit year"

text \<open>A wire line that is only a segment type token: no separator, one line, not blank
  (blank lines are dropped before decoding).\<close>

definition bareToken :: "string \<Rightarrow> bool" where
  "bareToken t \<longleftrightarrow> CHR ''|'' \<notin> set t \<and> CHR 0x0A \<notin> set t \<and> trimTruthy t"

text \<open>A field map that has the fixed names of a segment type and no other, each bound to
  the wire field at its index, or to the empty string where the line has no such field.\<close>

definition fullyShaped :: "(string \<times> nat) list \<Rightarrow> string list \<Rightarrow> fieldMap \<Rightarrow> bool" where
  "fullyShaped names fields m \<longleftrightarrow>
     dom m = fst ` set names \<and>
     list_all (\<lambda>(name, i). m name = Some (if i < length fields then fields ! i else [])) names"

text \<open>The key under which the decoders with a \<open>switch\<close> store a line.\<close>

definition lineKey_switch :: "string \<Rightarrow> string" where
  "lineKey_switch line =
     (case split CHR ''|'' line of t # fields \<Rightarrow> switchKey t fields | [] \<Rightarrow> [])"

definition lineKey_cms1500 :: "string \<Rightarrow> string" where
  "lineKey_cms1500 line = (case split CHR ''|'' line of t # fields \<Rightarrow> t | [] \<Rightarrow> [])"

text \<open>A comparator that is a total preorder, as the collation of a locale is.\<close>

definition collation :: "comparator \<Rightarrow> bool" where
  "collation cmp \<longleftrightarrow>
     (\<forall>a b. cmp a b \<le> 0 \<or> cmp b a \<le> 0) \<and>
     (\<forall>a b c. cmp a b \<le> 0 \<and> cmp b c \<le> 0 \<longrightarrow> cmp a c \<le> 0)"

text \<open>A text of decimal digits. On such texts a collation is the lexicographic order of the
  characters: the digits are collated in the order of their values.\<close>

definition digitString :: "string \<Rightarrow> bool" where
  "digitString s \<longleftrightarrow> list_all isDigit s"

definition lexicographicOnDigits :: "comparator \<Rightarrow> bool" where
  "lexicographicOnDigits cmp \<longleftrightarrow>
     (\<forall>a b. digitString a \<and> digitString b \<longrightarrow> (cmp a b \<le> 0 \<longleftrightarrow> a \<le> b))"

text \<open>
  The order of the character codes as a comparator. It stands for \<open>localeCompare\<close> in
  the examples, on the strings they compare: there the collation of the runtime gives the
  same sign (\<open>10\<close> before \<open>2\<close>, and the digit \<open>1\<close> before the word \<open>OBX\<close>). It
  is not the collation elsewhere: the runtime collates \<open>b\<close> before \<open>B\<close>.
\<close>

definition codeOrder :: comparator where
  "codeOrder a b = (if a < b then - 1 else if a = b then 0 else 1)"

text \<open>
  A schema of one segment type in which no two positions have the same name (the
  invariant of the data model), and no name is empty or reads like a generic name
  \<open>field...\<close>.
\<close>

definition tableOk :: "(string \<times> string) list \<Rightarrow> bool" where
  "tableOk mappings \<longleftrightarrow>
     distinct (map snd mappings) \<and>
     list_all (\<lambda>(k, name). name \<noteq> [] \<and> \<not> startsWith ''field'' name) mappings"

text \<open>
  A text of a form, and what the expressions of the table match on it, worked by hand from
  the expressions: \<open>2. Smith\<close> is matched by the expression of \<open>patientName\<close>,
  \<open>1a. ABCDE\<close> by that of \<open>insuranceId\<close>, \<open>J45\<close> by that of \<open>diagnosis\<close>, and
  the date by that of \<open>serviceDate\<close> with the groups 12, 31 and the year; no other
  expression and no fallback matches. \<open>formEngine\<close> is the engine on these two texts,
  which differ in the year of the date.
\<close>

definition formText :: string where
  "formText = ''2. Smith 1a. ABCDE J45 12/31/2026 insured patient provider''"

definition formTextInRange :: string where
  "formTextInRange = ''2. Smith 1a. ABCDE J45 12/31/2024 insured patient provider''"

definition formEngine :: engine where
  "formEngine p text =
     (if text = formText \<or> text = formTextInRange then
        (case p of
           Regex k \<Rightarrow>
             map_of [(''patientName'', [Some ''Smith'']), (''insuranceId'', [Some ''ABCDE'']),
                     (''serviceDate'',
                        [Some ''12'', Some ''31'',
                         Some (if text = formText then ''2026'' else ''2024'')]),
                     (''diagnosis'', [Some ''J45''])] k
         | FallbackRegex k \<Rightarrow> None)
      else None)"

text \<open>The canonical record a parsed JSON object stands for: the bindings, without the
  order of the keys.\<close>

definition recordOf :: "hl7Obj \<Rightarrow> hl7Json" where
  "recordOf json k = map_option map_of (map_of json k)"

text \<open>The field names of the OBX schema.\<close>

definition obxNames :: "string list" where
  "obxNames = [''setId'', ''valueType'', ''observationIdentifier'', ''observationValue'',
               ''observationStatus'']"

text \<open>A value the wire format can carry: no field separator and no line break in it.\<close>

definition wireSafe :: "string \<Rightarrow> bool" where
  "wireSafe v \<longleftrightarrow> CHR ''|'' \<notin> set v \<and> CHR 0x0A \<notin> set v"

text \<open>
  An OBX instance whose populated fields are exactly those of the schema: it is stored
  under \<open>OBX\<close> followed by its set-identifier, which is not empty; its fields are the
  five of the schema; the last of them, the observation status, is not empty; and every
  value is one the wire can carry.
\<close>

definition obxInstance :: "string \<times> fieldObj \<Rightarrow> bool" where
  "obxInstance e \<longleftrightarrow>
     fst e = ''OBX'' @ getProp (snd e) ''setId'' \<and>
     getProp (snd e) ''setId'' \<noteq> [] \<and>
     getProp (snd e) ''observationStatus'' \<noteq> [] \<and>
     set (map fst (snd e)) = set obxNames \<and>
     list_all (\<lambda>p. wireSafe (snd p)) (snd e)"

text \<open>What decoding makes of the fields of an instance: the fields, and the empty string
  under the generic name of each position between them that the schema leaves out.\<close>

definition decodedObx :: "fieldObj \<Rightarrow> fieldMap" where
  "decodedObx d =
     (map_of d)(''field4'' \<mapsto> [], ''field6'' \<mapsto> [], ''field7'' \<mapsto> [], ''field8'' \<mapsto> [],
                ''field9'' \<mapsto> [], ''field10'' \<mapsto> [])"

text \<open>A record of two OBX instances, the set-identifier \<open>2\<close> before \<open>10\<close>.\<close>

definition obxExample :: hl7Obj where
  "obxExample =
     [(''OBX2'', [(''setId'', ''2''), (''valueType'', ''ST''), (''observationIdentifier'', ''SvcDate''),
                  (''observationValue'', ''20250516''), (''observationStatus'', ''F'')]),
      (''OBX10'', [(''setId'', ''10''), (''valueType'', ''NM''), (''observationIdentifier'', ''Units''),
                   (''observationValue'', []), (''observationStatus'', ''P'')])]"

section \<open>Lemmas on the built-ins\<close>

lemma split_not_Nil [simp]: "split c s \<noteq> []"
  by (induction s) (auto split: list.splits)

lemma split_no_sep: "c \<notin> set s \<Longrightarrow> split c s = [s]"
  by (induction s) auto

lemma split_at_sep: "c \<notin> set xs \<Longrightarrow> split c (xs @ c # ys) = xs # split c ys"
  by (induction xs) auto

lemma split_append: "split c (xs @ c # ys) = split c xs @ split c ys"
proof (induction xs)
  case Nil
  show ?case by simp
next
  case (Cons x xs)
  then show ?case by (cases "split c xs") auto
qed

lemma split_join:
  "xs \<noteq> [] \<Longrightarrow> list_all (\<lambda>x. c \<notin> set x) xs \<Longrightarrow> split c (join [c] xs) = xs"
proof (induction xs)
  case Nil
  then show ?case by simp
next
  case (Cons x xs)
  show ?case
  proof (cases xs)
    case Nil
    with Cons.prems show ?thesis by (simp add: split_no_sep)
  next
    case (Cons y ys)
    with Cons.IH Cons.prems show ?thesis by (simp add: split_at_sep)
  qed
qed

section \<open>The date normalizer\<close>

lemma digits12_sound:
  "(m, r) \<in> set (digits12 s) \<Longrightarrow>
     s = m @ r \<and> (length m = 1 \<or> length m = 2) \<and> list_all isDigit m"
  by (induction s rule: digits12.induct) (auto split: if_splits)

lemma dateSep_sound:
  "r' \<in> set (dateSep r) \<Longrightarrow> \<exists>c. r = c # r' \<and> (c = CHR ''-'' \<or> c = CHR ''/'')"
  by (cases r) (auto split: if_splits)

lemma year4_sound: "y \<in> set (year4 r) \<Longrightarrow> y = r \<and> length y = 4 \<and> list_all isDigit y"
  by (auto simp: year4_def split: if_splits)

text \<open>Whatever the expression matches has the shape, and the groups are its parts.\<close>

lemma matchDate_sound:
  assumes "matchDate s = Some (m, d, y)"
  shows "\<exists>s1 s2. s = m @ [s1] @ d @ [s2] @ y \<and> dateShape m s1 d s2 y"
proof -
  from assms obtain rest where "dateMatches s = (m, d, y) # rest"
    by (auto simp: matchDate_def split: list.splits)
  then have "(m, d, y) \<in> set (dateMatches s)" by simp
  then obtain r1 r2 r3 r4 where
    a: "(m, r1) \<in> set (digits12 s)" and b: "r2 \<in> set (dateSep r1)"
    and c: "(d, r3) \<in> set (digits12 r2)" and e: "r4 \<in> set (dateSep r3)"
    and f: "y \<in> set (year4 r4)"
    unfolding dateMatches_def by (auto simp: set_list_bind)
  from digits12_sound[OF a] dateSep_sound[OF b] digits12_sound[OF c] dateSep_sound[OF e]
    year4_sound[OF f]
  show ?thesis by (auto simp: dateShape_def)
qed

text \<open>Every text of the shape is matched, with its parts as the groups.\<close>

lemma matchDate_complete:
  assumes "dateShape m s1 d s2 y"
  shows "matchDate (m @ [s1] @ d @ [s2] @ y) = Some (m, d, y)"
proof -
  from assms have sep: "s1 = CHR ''-'' \<or> s1 = CHR ''/''" "s2 = CHR ''-'' \<or> s2 = CHR ''/''"
    and dy: "list_all isDigit y"
    by (auto simp: dateShape_def)
  have nd: "\<not> isDigit s1" "\<not> isDigit s2" using sep by (auto simp: isDigit_def)
  from assms consider a where "m = [a]" "isDigit a"
    | a b where "m = [a, b]" "isDigit a" "isDigit b"
    unfolding dateShape_def by (cases m; cases "tl m"; cases "tl (tl m)") auto
  note mc = this
  from assms consider e where "d = [e]" "isDigit e"
    | e f where "d = [e, f]" "isDigit e" "isDigit f"
    unfolding dateShape_def by (cases d; cases "tl d"; cases "tl (tl d)") auto
  note dc = this
  from assms obtain y1 y2 y3 y4 where y: "y = [y1, y2, y3, y4]"
    unfolding dateShape_def
    by (cases y; cases "tl y"; cases "tl (tl y)"; cases "tl (tl (tl y))";
        cases "tl (tl (tl (tl y)))") auto
  show ?thesis
    using mc
  proof cases
    case 1
    show ?thesis using dc
    proof cases
      case 1
      with \<open>m = [a]\<close> \<open>isDigit a\<close> y dy sep nd show ?thesis
        by (auto simp: matchDate_def dateMatches_def year4_def)
    next
      case 2
      with \<open>m = [a]\<close> \<open>isDigit a\<close> y dy sep nd show ?thesis
        by (auto simp: matchDate_def dateMatches_def year4_def)
    qed
  next
    case 2
    show ?thesis using dc
    proof cases
      case 1
      with \<open>m = [a, b]\<close> \<open>isDigit a\<close> \<open>isDigit b\<close> y dy sep nd show ?thesis
        by (auto simp: matchDate_def dateMatches_def year4_def)
    next
      case 2
      with \<open>m = [a, b]\<close> \<open>isDigit a\<close> \<open>isDigit b\<close> y dy sep nd show ?thesis
        by (auto simp: matchDate_def dateMatches_def year4_def)
    qed
  qed
qed

lemma padded_date8:
  assumes "dateShape m s1 d s2 y"
  shows "isDate8 (y @ padStart 2 (CHR ''0'') m @ padStart 2 (CHR ''0'') d)"
  using assms by (auto simp: dateShape_def isDate8_def padStart_def isDigit_def)

lemma shape_not_date8: "dateShape m s1 d s2 y \<Longrightarrow> \<not> isDate8 (m @ [s1] @ d @ [s2] @ y)"
  by (auto simp: dateShape_def isDate8_def isDigit_def)

lemma formatDate_date8: "isDate8 s \<Longrightarrow> formatDate s = s"
  by (auto simp: formatDate_def isDate8_def)

lemma formatDate_shape:
  assumes "dateShape m s1 d s2 y"
  shows "formatDate (m @ [s1] @ d @ [s2] @ y)
           = y @ padStart 2 (CHR ''0'') m @ padStart 2 (CHR ''0'') d"
  using matchDate_complete[OF assms] shape_not_date8[OF assms]
  by (simp add: formatDate_def)

lemma formatDate_other:
  assumes "\<not> isDate8 s" and "\<And>m s1 d s2 y. dateShape m s1 d s2 y \<Longrightarrow> s \<noteq> m @ [s1] @ d @ [s2] @ y"
  shows "formatDate s = []"
proof (cases "matchDate s")
  case None
  with assms(1) show ?thesis by (simp add: formatDate_def)
next
  case (Some x)
  obtain m d y where "x = (m, d, y)" by (cases x)
  with Some matchDate_sound[of s m d y] assms(2) show ?thesis by blast
qed

lemma formatDate_result: "formatDate s = [] \<or> isDate8 (formatDate s)"
proof (cases "isDate8 s")
  case True
  then show ?thesis by (simp add: formatDate_date8)
next
  case False
  show ?thesis
  proof (cases "matchDate s")
    case None
    with False show ?thesis by (simp add: formatDate_def)
  next
    case (Some x)
    obtain m d y where x: "x = (m, d, y)" by (cases x)
    from matchDate_sound[OF Some[unfolded x]] obtain s1 s2
      where "s = m @ [s1] @ d @ [s2] @ y" "dateShape m s1 d s2 y" by blast
    with formatDate_shape[of m s1 d s2 y] padded_date8[of m s1 d s2 y] show ?thesis by simp
  qed
qed

text \<open>
  C7. Date normalization is idempotent: \<open>formatDate\<close> of the JSON converters
  (CMSConverter.tsx, line 57; part_000, line 82) gives on its own result that result again,
  for every input.
\<close>

theorem formatDate_idempotent: "formatDate (formatDate x) = formatDate x"
  using formatDate_result[of x] formatDate_date8[of "formatDate x"]
  by (auto simp: formatDate_def)

lemma digits_without: "list_all isDigit s \<Longrightarrow> \<not> isDigit c \<Longrightarrow> c \<notin> set s"
  by (auto simp: list_all_iff)

lemma slash_not_digit: "\<not> isDigit (CHR ''/'')"
  by (simp add: isDigit_def)

text \<open>
  C6 (amended). On \<open>formatDate\<close> of the JSON converters (CMSConverter.tsx, line 57;
  part_000, line 82) the property holds as the specification states it: an 8-digit token is returned unchanged; an
  input of the shape \<open><1-2 digits><sep><1-2 digits><sep><4 digits>\<close> gives the year, then
  the month and the day padded to two digits; any other input gives the empty string; no
  input raises. \<open>formatDate\<close> of the form converter (part_000, line 940) is another
  function: it raises a TypeError on an input with no \<open>/\<close> (an 8-digit token among
  them), gives the same padded token on an input of the shape written with \<open>/\<close>, and
  whenever it returns, it returns an 8-digit token (the default \<open>20250101\<close> where the
  parts do not make one), never the empty string.
\<close>

theorem formatDate_shapes:
  "(isDate8 raw \<longrightarrow> formatDate raw = raw) \<and>
   (dateShape month s1 day s2 year \<longrightarrow>
      formatDate (month @ [s1] @ day @ [s2] @ year)
        = year @ padStart 2 (CHR ''0'') month @ padStart 2 (CHR ''0'') day) \<and>
   (\<not> isDate8 raw \<and>
      (\<forall>m c1 d c2 y. dateShape m c1 d c2 y \<longrightarrow> raw \<noteq> m @ [c1] @ d @ [c2] @ y)
      \<longrightarrow> formatDate raw = []) \<and>
   (CHR ''/'' \<notin> set raw \<longrightarrow> formatDate_cms1500 raw = Inl TypeError) \<and>
   (dateShape month (CHR ''/'') day (CHR ''/'') year \<longrightarrow>
      formatDate_cms1500 (month @ ''/'' @ day @ ''/'' @ year)
        = Inr (year @ padStart 2 (CHR ''0'') month @ padStart 2 (CHR ''0'') day)) \<and>
   (\<forall>r. formatDate_cms1500 raw = Inr r \<longrightarrow> isDate8 r)"
proof (intro conjI impI allI)
  assume "isDate8 raw"
  then show "formatDate raw = raw" by (rule formatDate_date8)
next
  assume "dateShape month s1 day s2 year"
  then show "formatDate (month @ [s1] @ day @ [s2] @ year)
      = year @ padStart 2 (CHR ''0'') month @ padStart 2 (CHR ''0'') day"
    by (rule formatDate_shape)
next
  assume "\<not> isDate8 raw \<and>
      (\<forall>m c1 d c2 y. dateShape m c1 d c2 y \<longrightarrow> raw \<noteq> m @ [c1] @ d @ [c2] @ y)"
  then show "formatDate raw = []" by (intro formatDate_other) blast+
next
  assume "CHR ''/'' \<notin> set raw"
  then show "formatDate_cms1500 raw = Inl TypeError"
    by (simp add: formatDate_cms1500_def split_no_sep)
next
  assume sh: "dateShape month (CHR ''/'') day (CHR ''/'') year"
  then have no: "CHR ''/'' \<notin> set month" "CHR ''/'' \<notin> set day" "CHR ''/'' \<notin> set year"
    unfolding dateShape_def using digits_without[OF _ slash_not_digit] by blast+
  have "split CHR ''/'' (month @ CHR ''/'' # day @ CHR ''/'' # year) = [month, day, year]"
    using no by (simp add: split_at_sep split_no_sep)
  with padded_date8[OF sh]
  show "formatDate_cms1500 (month @ ''/'' @ day @ ''/'' @ year)
      = Inr (year @ padStart 2 (CHR ''0'') month @ padStart 2 (CHR ''0'') day)"
    by (simp add: formatDate_cms1500_def)
next
  fix r
  assume "formatDate_cms1500 raw = Inr r"
  then show "isDate8 r"
    by (auto simp: formatDate_cms1500_def Let_def isDate8_def isDigit_def
        split: list.splits if_splits)
qed

theorem formatDate_shapes_witness:
  "formatDate ''20250131'' = ''20250131'' \<and>
   formatDate ''1/2/2020'' = ''20200102'' \<and>
   formatDate ''Jan 2'' = [] \<and>
   formatDate_cms1500 ''20250131'' = Inl TypeError \<and>
   formatDate_cms1500 ''1/2/2020'' = Inr ''20200102'' \<and>
   isDate8 ''20200102''"
proof -
  have other: "\<forall>m c1 d c2 y. dateShape m c1 d c2 y \<longrightarrow> ''Jan 2'' \<noteq> m @ [c1] @ d @ [c2] @ y"
  proof (intro allI impI notI)
    fix m c1 d c2 y
    assume sh: "dateShape m c1 d c2 y" and eq: "''Jan 2'' = m @ [c1] @ d @ [c2] @ y"
    from sh obtain a m' where m: "m = a # m'" "isDigit a"
      by (cases m) (auto simp: dateShape_def)
    with eq have "a = CHR ''J''" by simp
    with m show False by (simp add: isDigit_def)
  qed
  have sh: "dateShape ''1'' (CHR ''/'') ''2'' (CHR ''/'') ''2020''"
    by (simp add: dateShape_def isDigit_def)
  have r: "formatDate_cms1500 ''1/2/2020'' = Inr ''20200102''"
    by (simp add: formatDate_cms1500_def isDate8_def isDigit_def padStart_def)
  have a: "formatDate ''20250131'' = ''20250131''"
    using formatDate_shapes[of "''20250131''"] by (simp add: isDate8_def isDigit_def)
  have b: "formatDate ''1/2/2020'' = ''20200102''"
    using formatDate_shapes[of _ "''1''" "CHR ''/''" "''2''" "CHR ''/''" "''2020''"] sh
    by (simp add: padStart_def)
  have c: "formatDate ''Jan 2'' = []"
    using formatDate_shapes[of "''Jan 2''"] other by (simp add: isDate8_def)
  have d: "formatDate_cms1500 ''20250131'' = Inl TypeError"
    using formatDate_shapes[of "''20250131''"] by simp
  have e: "formatDate_cms1500 ''1/2/2020'' = Inr ''20200102''"
    using formatDate_shapes[of _ "''1''" "CHR ''/''" "''2''" "CHR ''/''" "''2020''"] sh
    by (simp add: padStart_def)
  have f: "isDate8 ''20200102''"
    using formatDate_shapes[of "''1/2/2020''"] r by blast
  from a b c d e f show ?thesis by blast
qed

theorem formatDate_cms1500_counterexample:
  "formatDate_cms1500 ''20250131'' = Inl TypeError \<and>
   formatDate_cms1500 ''1/2/20'' = Inr ''20250101''"
  by (simp add: formatDate_cms1500_def isDate8_def isDigit_def padStart_def)

section \<open>The segment builder\<close>

lemma trimTrailing_stop: "length fs \<le> 1 \<or> last fs \<noteq> [] \<Longrightarrow> trimTrailing fs = fs"
  by (subst trimTrailing.simps) auto

lemma trimTrailing_pop: "fs \<noteq> [] \<Longrightarrow> trimTrailing (fs @ [[]]) = trimTrailing fs"
  by (subst trimTrailing.simps) auto

text \<open>What the loop leaves: the field list without a run of empty slots at its end, at
  least one slot of a list that had one, and no empty last slot unless it is the only one.\<close>

lemma trimTrailing_shape:
  "(\<exists>k. fs = trimTrailing fs @ replicate k []) \<and> (fs \<noteq> [] \<longrightarrow> trimTrailing fs \<noteq> [])
     \<and> (1 < length (trimTrailing fs) \<longrightarrow> last (trimTrailing fs) \<noteq> [])"
proof (induction fs rule: trimTrailing.induct)
  case (1 fields)
  show ?case
  proof (cases "length fields > 1 \<and> last fields = []")
    case True
    then have eq: "trimTrailing fields = trimTrailing (butlast fields)"
      by (subst trimTrailing.simps) simp
    from True have ne: "butlast fields \<noteq> []" by (cases fields rule: rev_cases) auto
    from True have fl: "fields = butlast fields @ [[]]"
      by (metis append_butlast_last_id length_greater_0_conv less_trans zero_less_one)
    from 1[OF True] obtain k
      where k: "butlast fields = trimTrailing (butlast fields) @ replicate k []"
      by blast
    have "fields = trimTrailing fields @ replicate (Suc k) []"
      using fl k eq by (metis append.assoc replicate_Suc replicate_append_same)
    with 1[OF True] ne eq True show ?thesis by (metis length_0_conv not_one_less_zero)
  next
    case False
    then have "trimTrailing fields = fields" by (subst trimTrailing.simps) auto
    with False show ?thesis by (auto intro: exI[of _ 0])
  qed
qed

lemma trimTrailing_all_empty: "trimTrailing (replicate (Suc n) []) = [[]]"
proof (induction n)
  case 0
  show ?case by (simp add: trimTrailing.simps)
next
  case (Suc n)
  have e: "replicate (Suc (Suc n)) ([]::string) = replicate (Suc n) [] @ [[]]"
    by (metis replicate_Suc replicate_append_same)
  have "trimTrailing (replicate (Suc n) [] @ [[]]) = trimTrailing (replicate (Suc n) [])"
    by (rule trimTrailing_pop) simp
  with Suc e show ?case by (simp only:)
qed

text \<open>
  C2 (amended). \<open>createSegment\<close> joins the type token and the trimmed field list with
  \<open>|\<close>. The trimmed list is the field list with a run of empty slots cut from its end:
  the slots before the run are kept as they are, empty ones among them; a list with a slot
  keeps at least one; and the last slot kept is not empty unless it is the only one. So
  \<open>["A","",""]\<close> gives \<open>TYPE|A\<close> and \<open>["","B",""]\<close> gives \<open>TYPE||B\<close>. A segment
  whose slots are all empty keeps one empty slot and is emitted as \<open>TYPE|\<close>, the type
  token and one separator; only a segment with no slot at all is the bare type token.
\<close>

theorem createSegment_trims:
  "(\<exists>k. fs = trimTrailing fs @ replicate k []) \<and>
   (fs \<noteq> [] \<longrightarrow> trimTrailing fs \<noteq> []) \<and>
   (1 < length (trimTrailing fs) \<longrightarrow> last (trimTrailing fs) \<noteq> []) \<and>
   createSegment t fs = join ''|'' (t # trimTrailing fs) \<and>
   createSegment t [''A'', [], []] = t @ ''|A'' \<and>
   createSegment t [[], ''B'', []] = t @ ''||B'' \<and>
   createSegment t (replicate (Suc n) []) = t @ ''|'' \<and>
   createSegment t [] = t"
proof -
  have "createSegment t (replicate (Suc n) []) = t @ ''|''"
    by (simp add: createSegment_def trimTrailing_all_empty del: replicate_Suc)
  moreover have "createSegment t [''A'', [], []] = t @ ''|A''"
    "createSegment t [[], ''B'', []] = t @ ''||B''" "createSegment t [] = t"
    by (simp_all add: createSegment_def trimTrailing.simps)
  ultimately show ?thesis
    using trimTrailing_shape[of fs] by (simp add: createSegment_def)
qed

theorem createSegment_trims_witness:
  "(\<exists>k. [''A'', [], ''B'', [], []] = trimTrailing [''A'', [], ''B'', [], []] @ replicate k []) \<and>
   trimTrailing [''A'', [], ''B'', [], []] \<noteq> [] \<and>
   1 < length (trimTrailing [''A'', [], ''B'', [], []]) \<and>
   last (trimTrailing [''A'', [], ''B'', [], []]) \<noteq> [] \<and>
   createSegment ''TYPE'' [''A'', [], ''B'', [], []] = ''TYPE|A||B''"
proof -
  have t: "trimTrailing [''A'', [], ''B'', [], []] = [''A'', [], ''B'']"
    by (simp add: trimTrailing.simps)
  show ?thesis
    using createSegment_trims[of "[''A'', [], ''B'', [], []]" "''TYPE''"]
    by (simp add: t)
qed

theorem createSegment_all_empty_counterexample:
  "createSegment ''TYPE'' [[], [], []] = ''TYPE|'' \<and>
   createSegment ''TYPE'' [[], [], []] \<noteq> ''TYPE''"
  by (simp add: createSegment_def trimTrailing.simps)

section \<open>The text converter and the clock\<close>

lemma toHl7Format_split:
  "toHl7Format now data =
     (''MSH|^~'' @ [CHR 0x5C] @ ''&|CMS1500App|Hospital|HL7Receiver|HL7Facility|'') @ now
       @ drop 53 (toHl7Format [] data)"
  by (simp add: toHl7Format_def)

text \<open>
  C8 (amended). \<open>toHl7Format\<close> of the text converter (fixed_converter.tsx, line 18) is a
  function of its input and of the reading of the clock at the call: the reading is
  written as the field after \<open>HL7Facility\<close> of the MSH line and nothing else of the
  output depends on it. Two runs on the same input give the same output when, and only
  when, the two readings of the clock agree.
\<close>

theorem toHl7Format_clock:
  "toHl7Format now data =
     (''MSH|^~'' @ [CHR 0x5C] @ ''&|CMS1500App|Hospital|HL7Receiver|HL7Facility|'') @ now
       @ drop 53 (toHl7Format [] data) \<and>
   (toHl7Format now1 data = toHl7Format now2 data \<longleftrightarrow> now1 = now2) \<and>
   (convertText now1 text = convertText now2 text \<longleftrightarrow> now1 = now2)"
proof -
  have eq: "toHl7Format a d = toHl7Format b d \<longleftrightarrow> a = b" for a b d
    by (subst toHl7Format_split[of a], subst toHl7Format_split[of b]) simp
  show ?thesis using toHl7Format_split[of now data] eq by (simp add: convertText_def)
qed

theorem toHl7Format_clock_counterexample:
  "toHl7Format ''2025-05-16T10:00:00.000Z'' Map.empty
     \<noteq> toHl7Format ''2025-05-16T10:00:01.000Z'' Map.empty"
  by (simp add: toHl7Format_def)

section \<open>The decoders\<close>



lemma wireLines_last:
  "CHR 0x0A \<notin> set t \<Longrightarrow> trimTruthy t \<Longrightarrow> wireLines (p @ CHR 0x0A # t) = wireLines p @ [t]"
  by (simp add: wireLines_def split_append split_no_sep)

lemma wireLines_single: "CHR 0x0A \<notin> set t \<Longrightarrow> trimTruthy t \<Longrightarrow> wireLines t = [t]"
  by (simp add: wireLines_def split_no_sep)

lemma assign_other: "k \<noteq> ''__proto__'' \<Longrightarrow> assign obj k v = obj(k \<mapsto> v)"
  by (simp add: assign_def)

lemma assign_proto: "assign obj ''__proto__'' v = obj"
  by (simp add: assign_def)

lemma decodeLine_bare:
  "CHR ''|'' \<notin> set t \<Longrightarrow> t \<noteq> ''__proto__'' \<Longrightarrow> decodeLine out t = out(t \<mapsto> Map.empty)"
  by (simp add: decodeLine_def split_no_sep segmentKeyOf_def nthOpt_def assign_other)

lemma switchKey_bare: "switchKey t [] = t"
  by (simp add: switchKey_def fld_def nthOpt_def)

lemma decodeLine_switch_bare:
  "CHR ''|'' \<notin> set t \<Longrightarrow> t \<noteq> ''__proto__'' \<Longrightarrow>
     decodeLine_switch out t = out(t \<mapsto> switchData switchNames t [])"
  by (auto simp: decodeLine_switch_def split_no_sep switchKey_bare Let_def assign_other)

lemma fld_Nil: "fld [] i = []"
  by (simp add: fld_def nthOpt_def)

lemma objectOf_Nil: "objectOf names [] = map_of (map (\<lambda>(n, i). (n, [])) names)"
  by (simp add: objectOf_def fld_Nil)

lemma switchData_bare:
  "switchData cases t [] =
     (case map_of cases t of Some names \<Rightarrow> map_of (map (\<lambda>(n, i). (n, [])) names) | None \<Rightarrow> Map.empty)"
  by (simp add: switchData_def objectOf_Nil split: option.splits)

lemma table_last:
  assumes "bareToken t" "t \<noteq> ''__proto__''"
  shows "convertHL7ToJson (p @ CHR 0x0A # t) t = Some Map.empty"
    and "convertHL7ToJson t t = Some Map.empty"
  using assms
  by (simp_all add: bareToken_def convertHL7ToJson_def wireLines_last wireLines_single
      decodeLine_bare)

lemma switch_last:
  assumes "bareToken t" "t \<noteq> ''__proto__''"
  shows "convertHL7ToJson_switch (p @ CHR 0x0A # t) t = Some (switchData switchNames t [])"
    and "convertHL7ToJson_switch t t = Some (switchData switchNames t [])"
  using assms
  by (simp_all add: bareToken_def convertHL7ToJson_switch_def wireLines_last wireLines_single
      decodeLine_switch_bare)

lemma proto_line:
  "decodeLine out ''__proto__'' = out" "decodeLine_switch out ''__proto__'' = out"
  by (simp_all add: decodeLine_def decodeLine_switch_def segmentKeyOf_def nthOpt_def
      switchKey_def assign_def Let_def)

text \<open>
  C9 (amended). A wire line that is only a segment type token, and not blank, never fails
  to decode. Where the token is not \<open>__proto__\<close>, the table-driven decoder (part_000,
  line 208) binds the token to the empty field map, and the decoder of CMSConverter.tsx
  (line 222) binds a token of an unknown type to the empty field map and a token of one of
  its known types to the map of the fixed names of that type, each with the empty string.
  The token \<open>__proto__\<close> decodes without an error too, but gets no entry: the
  assignment under that key sets the prototype of the result, and the record is as it was
  before the line.
\<close>

theorem bare_token_decodes:
  "(bareToken t \<and> t \<noteq> ''__proto__'' \<longrightarrow>
      decodeLine out t = out(t \<mapsto> Map.empty) \<and>
      convertHL7ToJson t t = Some Map.empty \<and>
      convertHL7ToJson (p @ [CHR 0x0A] @ t) t = Some Map.empty) \<and>
   (bareToken t \<and> t \<noteq> ''__proto__'' \<longrightarrow>
      decodeLine_switch out t = out(t \<mapsto> switchData switchNames t []) \<and>
      convertHL7ToJson_switch t t = Some (switchData switchNames t []) \<and>
      convertHL7ToJson_switch (p @ [CHR 0x0A] @ t) t = Some (switchData switchNames t []) \<and>
      switchData switchNames t [] =
        (case map_of switchNames t of
           Some names \<Rightarrow> map_of (map (\<lambda>(n, i). (n, [])) names)
         | None \<Rightarrow> Map.empty)) \<and>
   bareToken ''__proto__'' \<and>
   decodeLine out ''__proto__'' = out \<and>
   decodeLine_switch out ''__proto__'' = out \<and>
   convertHL7ToJson ''__proto__'' = Map.empty \<and>
   convertHL7ToJson_switch ''__proto__'' = Map.empty"
proof (intro conjI impI; (elim conjE)?)
  assume b: "bareToken t" and n: "t \<noteq> ''__proto__''"
  from b n show "decodeLine out t = out(t \<mapsto> Map.empty)"
    by (simp add: bareToken_def decodeLine_bare)
  from b n show "convertHL7ToJson t t = Some Map.empty" by (rule table_last)
  from b n show "convertHL7ToJson (p @ [CHR 0x0A] @ t) t = Some Map.empty"
    by (simp add: table_last)
  from b n show "decodeLine_switch out t = out(t \<mapsto> switchData switchNames t [])"
    by (simp add: bareToken_def decodeLine_switch_bare)
  from b n show "convertHL7ToJson_switch t t = Some (switchData switchNames t [])"
    by (rule switch_last)
  from b n show "convertHL7ToJson_switch (p @ [CHR 0x0A] @ t) t = Some (switchData switchNames t [])"
    by (simp add: switch_last)
  show "switchData switchNames t [] =
        (case map_of switchNames t of
           Some names \<Rightarrow> map_of (map (\<lambda>(n, i). (n, [])) names)
         | None \<Rightarrow> Map.empty)"
    by (rule switchData_bare)
next
  have b: "bareToken ''__proto__''" by (simp add: bareToken_def trimTruthy_def isSpace_def)
  then show "bareToken ''__proto__''" .
  show "decodeLine out ''__proto__'' = out" by (rule proto_line)
  show "decodeLine_switch out ''__proto__'' = out" by (rule proto_line)
  from b show "convertHL7ToJson ''__proto__'' = Map.empty"
    by (simp add: bareToken_def convertHL7ToJson_def wireLines_single proto_line)
  from b show "convertHL7ToJson_switch ''__proto__'' = Map.empty"
    by (simp add: bareToken_def convertHL7ToJson_switch_def wireLines_single proto_line)
qed

theorem bare_token_decodes_witness:
  "bareToken ''PV1'' \<and> ''PV1'' \<noteq> ''__proto__'' \<and>
   convertHL7ToJson ''MSH|a\<newline>PV1'' ''PV1'' = Some Map.empty \<and>
   convertHL7ToJson_switch ''ZZZ'' ''ZZZ'' = Some Map.empty \<and>
   convertHL7ToJson_switch ''MSH|a\<newline>PV1'' ''PV1''
     = Some (map_of [(''setId'', []), (''patientClass'', []), (''attendingDoctor'', []),
                     (''providerPhoneNumber'', [])])"
proof -
  have b: "bareToken ''PV1''" "bareToken ''ZZZ''"
    by (simp_all add: bareToken_def trimTruthy_def isSpace_def)
  have n: "map_of switchNames ''ZZZ'' = None"
    "map_of switchNames ''PV1'' = Some [(''setId'', 0), (''patientClass'', 1),
       (''attendingDoctor'', 6), (''providerPhoneNumber'', 18)]"
    by (simp_all add: switchNames_def)
  from bare_token_decodes[of "''PV1''" Map.empty "''MSH|a''"] b(1) n(2)
  have 1: "convertHL7ToJson ''MSH|a\<newline>PV1'' ''PV1'' = Some Map.empty"
    "convertHL7ToJson_switch ''MSH|a\<newline>PV1'' ''PV1''
     = Some (map_of [(''setId'', []), (''patientClass'', []), (''attendingDoctor'', []),
                     (''providerPhoneNumber'', [])])"
    by simp_all
  from bare_token_decodes[of "''ZZZ''" Map.empty "[]"] b(2) n(1)
  have 2: "convertHL7ToJson_switch ''ZZZ'' ''ZZZ'' = Some Map.empty" by simp
  from b(1) 1 2 show ?thesis by simp
qed

theorem bare_known_type_counterexample:
  "convertHL7ToJson_switch ''MSH'' ''MSH'' \<noteq> Some Map.empty \<and>
   (case convertHL7ToJson_switch ''MSH'' ''MSH'' of
      Some m \<Rightarrow> m ''encodingCharacters'' | None \<Rightarrow> None) = Some []"
proof -
  have "bareToken ''MSH''" by (simp add: bareToken_def trimTruthy_def isSpace_def)
  then have "convertHL7ToJson_switch ''MSH'' ''MSH'' = Some (switchData switchNames ''MSH'' [])"
    by (rule switch_last) simp
  moreover have "switchData switchNames ''MSH'' [] ''encodingCharacters'' = Some []"
    by (simp add: switchData_bare switchNames_def)
  ultimately show ?thesis by (auto simp: fun_eq_iff)
qed

lemma fld_eq: "fld fields i = (if i < length fields then fields ! i else [])"
  by (simp add: fld_def nthOpt_def)

lemma fld_snoc_empty: "fld (fields @ [[]]) i = fld fields i"
  by (auto simp: fld_eq nth_append)

lemma objectOf_shaped:
  assumes "distinct (map fst names)"
  shows "fullyShaped names fields (objectOf names fields)"
proof -
  let ?ps = "map (\<lambda>(n, i). (n, fld fields i)) names"
  have fst: "map fst ?ps = map fst names" by (induction names) auto
  have d: "distinct (map fst ?ps)" using assms by (simp only: fst)
  have "dom (map_of ?ps) = fst ` set names"
    using fst by (metis dom_map_of_conv_image_fst list.set_map)
  moreover have "map_of ?ps n = Some (fld fields i)" if "(n, i) \<in> set names" for n i
  proof -
    from that have "(n, fld fields i) \<in> set ?ps" by force
    with d show ?thesis by (rule map_of_is_SomeI)
  qed
  ultimately show ?thesis
    by (auto simp: fullyShaped_def objectOf_def list_all_iff fld_eq)
qed

lemma objectOf_snoc_empty: "objectOf names (fields @ [[]]) = objectOf names fields"
  by (simp add: objectOf_def fld_snoc_empty)

lemma switchNames_distinct: "map_of switchNames t = Some names \<Longrightarrow> distinct (map fst names)"
  by (auto simp: switchNames_def split: if_splits)

lemma cms1500Names_distinct: "map_of cms1500Names t = Some names \<Longrightarrow> distinct (map fst names)"
  by (auto simp: cms1500Names_def split: if_splits)

lemma switchData_known: "map_of cases t = Some names \<Longrightarrow> switchData cases t fields = objectOf names fields"
  by (simp add: switchData_def)

text \<open>The key of a line of a known type is the type, or begins with \<open>OBX\<close>: it is
  never \<open>__proto__\<close>.\<close>

lemma switchNames_key:
  "map_of switchNames t = Some names \<Longrightarrow> switchKey t fields \<noteq> ''__proto__''"
  by (auto simp: switchNames_def switchKey_def Let_def split: if_splits)

lemma cms1500Names_key: "map_of cms1500Names t = Some names \<Longrightarrow> t \<noteq> ''__proto__''"
  by (auto simp: cms1500Names_def split: if_splits)

lemma decodeLine_switch_key:
  "split CHR ''|'' line = t # fields \<Longrightarrow> switchKey t fields \<noteq> ''__proto__'' \<Longrightarrow>
     decodeLine_switch out line (switchKey t fields) = Some (switchData switchNames t fields)"
  by (simp add: decodeLine_switch_def Let_def assign_other)

lemma decodeLine_switch_other:
  assumes "out k = Some m" "lineKey_switch line \<noteq> k"
  shows "decodeLine_switch out line k = Some m"
proof (cases "split CHR ''|'' line")
  case Nil
  then show ?thesis by simp
next
  case (Cons t fields)
  with assms show ?thesis
    by (auto simp: decodeLine_switch_def lineKey_switch_def Let_def assign_def)
qed

lemma foldl_switch_other:
  "out k = Some m \<Longrightarrow> list_all (\<lambda>l. lineKey_switch l \<noteq> k) post \<Longrightarrow>
     foldl decodeLine_switch out post k = Some m"
  by (induction post arbitrary: out) (auto simp: decodeLine_switch_other)

lemma decodeLine_cms1500_key:
  "split CHR ''|'' line = t # fields \<Longrightarrow> t \<noteq> ''__proto__'' \<Longrightarrow>
     decodeLine_cms1500 out line t = Some (switchData cms1500Names t fields)"
  by (simp add: decodeLine_cms1500_def assign_other)

lemma decodeLine_cms1500_other:
  assumes "out k = Some m" "lineKey_cms1500 line \<noteq> k"
  shows "decodeLine_cms1500 out line k = Some m"
proof (cases "split CHR ''|'' line")
  case Nil
  then show ?thesis by simp
next
  case (Cons t fields)
  with assms show ?thesis
    by (auto simp: decodeLine_cms1500_def lineKey_cms1500_def assign_def)
qed

lemma foldl_cms1500_other:
  "out k = Some m \<Longrightarrow> list_all (\<lambda>l. lineKey_cms1500 l \<noteq> k) post \<Longrightarrow>
     foldl decodeLine_cms1500 out post k = Some m"
  by (induction post arbitrary: out) (auto simp: decodeLine_cms1500_other)

text \<open>
  C10. In the decoders that name the fields in a \<open>switch\<close> (CMSConverter.tsx, line 222;
  part_000, line 963), the field map decoded from a line of a known segment type has the
  fixed names of that type and no other, each bound to the wire field it reads, or to the
  empty string where the line has no such field: a line and the same line with one more
  empty field decode to the same map. That map is what the record holds under the key of
  the line once the line is processed, and what the result holds when no later line is
  stored under the same key.
\<close>

theorem known_segments_fully_shaped:
  "(split CHR ''|'' line = t # fields \<and> map_of switchNames t = Some names \<longrightarrow>
      fullyShaped names fields (switchData switchNames t fields) \<and>
      switchData switchNames t (fields @ [[]]) = switchData switchNames t fields \<and>
      decodeLine_switch out line (switchKey t fields) = Some (switchData switchNames t fields) \<and>
      (wireLines wire = pre @ line # post \<longrightarrow>
         foldl decodeLine_switch Map.empty (pre @ [line]) (switchKey t fields)
           = Some (switchData switchNames t fields)) \<and>
      (wireLines wire = pre @ line # post \<and>
         list_all (\<lambda>l. lineKey_switch l \<noteq> switchKey t fields) post \<longrightarrow>
         convertHL7ToJson_switch wire (switchKey t fields)
           = Some (switchData switchNames t fields))) \<and>
   (split CHR ''|'' line = t # fields \<and> map_of cms1500Names t = Some names \<longrightarrow>
      fullyShaped names fields (switchData cms1500Names t fields) \<and>
      switchData cms1500Names t (fields @ [[]]) = switchData cms1500Names t fields \<and>
      decodeLine_cms1500 out line t = Some (switchData cms1500Names t fields) \<and>
      (split (CHR 0x0A) wire = pre @ line # post \<longrightarrow>
         foldl decodeLine_cms1500 Map.empty (pre @ [line]) t
           = Some (switchData cms1500Names t fields)) \<and>
      (split (CHR 0x0A) wire = pre @ line # post \<and>
         list_all (\<lambda>l. lineKey_cms1500 l \<noteq> t) post \<longrightarrow>
         convertHL7ToJson_cms1500 wire t = Some (switchData cms1500Names t fields)))"
proof (intro conjI impI; (elim conjE)?)
  assume s: "split CHR ''|'' line = t # fields" and n: "map_of switchNames t = Some names"
  show "fullyShaped names fields (switchData switchNames t fields)"
    using objectOf_shaped[OF switchNames_distinct[OF n]] n by (simp add: switchData_known)
  show "switchData switchNames t (fields @ [[]]) = switchData switchNames t fields"
    using n by (simp add: switchData_known objectOf_snoc_empty)
  show "decodeLine_switch out line (switchKey t fields) = Some (switchData switchNames t fields)"
    using s switchNames_key[OF n] by (rule decodeLine_switch_key)
  show "foldl decodeLine_switch Map.empty (pre @ [line]) (switchKey t fields)
           = Some (switchData switchNames t fields)"
    using s switchNames_key[OF n] by (simp add: decodeLine_switch_key)
  show "convertHL7ToJson_switch wire (switchKey t fields) = Some (switchData switchNames t fields)"
    if w: "wireLines wire = pre @ line # post"
      and o: "list_all (\<lambda>l. lineKey_switch l \<noteq> switchKey t fields) post"
  proof -
    have "foldl decodeLine_switch Map.empty (pre @ [line]) (switchKey t fields)
           = Some (switchData switchNames t fields)"
      using s switchNames_key[OF n] by (simp add: decodeLine_switch_key)
    from foldl_switch_other[of "foldl decodeLine_switch Map.empty (pre @ [line])", OF this o]
    show ?thesis by (simp add: convertHL7ToJson_switch_def w)
  qed
next
  assume s: "split CHR ''|'' line = t # fields" and n: "map_of cms1500Names t = Some names"
  show "fullyShaped names fields (switchData cms1500Names t fields)"
    using objectOf_shaped[OF cms1500Names_distinct[OF n]] n by (simp add: switchData_known)
  show "switchData cms1500Names t (fields @ [[]]) = switchData cms1500Names t fields"
    using n by (simp add: switchData_known objectOf_snoc_empty)
  show "decodeLine_cms1500 out line t = Some (switchData cms1500Names t fields)"
    using s cms1500Names_key[OF n] by (rule decodeLine_cms1500_key)
  show "foldl decodeLine_cms1500 Map.empty (pre @ [line]) t
           = Some (switchData cms1500Names t fields)"
    using s cms1500Names_key[OF n] by (simp add: decodeLine_cms1500_key)
  show "convertHL7ToJson_cms1500 wire t = Some (switchData cms1500Names t fields)"
    if w: "split (CHR 0x0A) wire = pre @ line # post"
      and o: "list_all (\<lambda>l. lineKey_cms1500 l \<noteq> t) post"
  proof -
    have "foldl decodeLine_cms1500 Map.empty (pre @ [line]) t
           = Some (switchData cms1500Names t fields)"
      using s cms1500Names_key[OF n] by (simp add: decodeLine_cms1500_key)
    from foldl_cms1500_other[of "foldl decodeLine_cms1500 Map.empty (pre @ [line])", OF this o]
    show ?thesis by (simp add: convertHL7ToJson_cms1500_def w)
  qed
qed


text \<open>
  A by-product in CMSConverter.tsx: before the \<open>switch\<close> the decoder creates an empty
  entry under the segment type, and the OBX case stores its map under the key with the
  set-identifier, so a line \<open>OBX|1|ST\<close> also leaves the entry \<open>OBX: {}\<close>.
\<close>

lemma obx_line_leaves_empty_entry:
  "convertHL7ToJson_switch ''OBX|1|ST'' ''OBX'' = Some Map.empty \<and>
   (case convertHL7ToJson_switch ''OBX|1|ST'' ''OBX1'' of
      Some m \<Rightarrow> [m ''setId'', m ''valueType'', m ''observationStatus''] | None \<Rightarrow> [])
     = [Some ''1'', Some ''ST'', Some []]"
  by (simp add: convertHL7ToJson_switch_def wireLines_def trimTruthy_def isSpace_def
      decodeLine_switch_def switchKey_def switchData_def switchNames_def objectOf_def fld_eq
      assign_def)

theorem known_segments_fully_shaped_witness:
  "fullyShaped
     [(''setId'', 0), (''patientId'', 2), (''patientName'', 4), (''dob'', 6), (''gender'', 7),
      (''address'', 10), (''phoneNumber'', 12), (''patientAccountNumber'', 17)]
     [''7'', [], ''P1''] (switchData switchNames ''PID'' [''7'', [], ''P1'']) \<and>
   convertHL7ToJson_switch ''MSH|x\<newline>PID|7||P1'' ''PID''
     = Some (switchData switchNames ''PID'' [''7'', [], ''P1'']) \<and>
   switchData switchNames ''PID'' [''7'', [], ''P1''] ''patientId'' = Some ''P1'' \<and>
   switchData switchNames ''PID'' [''7'', [], ''P1''] ''dob'' = Some [] \<and>
   fullyShaped
     [(''setId'', 0), (''patientId'', 2), (''patientName'', 4), (''dob'', 6), (''gender'', 7),
      (''address'', 10)]
     [''7'', [], ''P1''] (switchData cms1500Names ''PID'' [''7'', [], ''P1'']) \<and>
   convertHL7ToJson_cms1500 ''MSH|x\<newline>PID|7||P1'' ''PID''
     = Some (switchData cms1500Names ''PID'' [''7'', [], ''P1''])"
proof -
  have sp: "split CHR ''|'' ''PID|7||P1'' = ''PID'' # [''7'', [], ''P1'']" by simp
  have n1: "map_of switchNames ''PID''
      = Some [(''setId'', 0), (''patientId'', 2), (''patientName'', 4), (''dob'', 6),
              (''gender'', 7), (''address'', 10), (''phoneNumber'', 12),
              (''patientAccountNumber'', 17)]"
    by (simp add: switchNames_def)
  have n2: "map_of cms1500Names ''PID''
      = Some [(''setId'', 0), (''patientId'', 2), (''patientName'', 4), (''dob'', 6),
              (''gender'', 7), (''address'', 10)]"
    by (simp add: cms1500Names_def)
  have w1: "wireLines ''MSH|x\<newline>PID|7||P1'' = [''MSH|x''] @ ''PID|7||P1'' # []"
    by (simp add: wireLines_def trimTruthy_def isSpace_def)
  have w2: "split (CHR 0x0A) ''MSH|x\<newline>PID|7||P1'' = [''MSH|x''] @ ''PID|7||P1'' # []"
    by simp
  have v: "switchData switchNames ''PID'' [''7'', [], ''P1''] ''patientId'' = Some ''P1''"
    "switchData switchNames ''PID'' [''7'', [], ''P1''] ''dob'' = Some []"
    by (simp_all add: switchData_def n1 objectOf_def fld_eq)
  from known_segments_fully_shaped[where line = "''PID|7||P1''" and t = "''PID''"
      and fields = "[''7'', [], ''P1'']" and wire = "''MSH|x\<newline>PID|7||P1''"
      and pre = "[''MSH|x'']" and post = "[]"
      and names = "[(''setId'', 0), (''patientId'', 2), (''patientName'', 4), (''dob'', 6),
              (''gender'', 7), (''address'', 10), (''phoneNumber'', 12),
              (''patientAccountNumber'', 17)]"] sp n1 w1
  have a: "fullyShaped
     [(''setId'', 0), (''patientId'', 2), (''patientName'', 4), (''dob'', 6), (''gender'', 7),
      (''address'', 10), (''phoneNumber'', 12), (''patientAccountNumber'', 17)]
     [''7'', [], ''P1''] (switchData switchNames ''PID'' [''7'', [], ''P1''])"
    "convertHL7ToJson_switch ''MSH|x\<newline>PID|7||P1'' ''PID''
     = Some (switchData switchNames ''PID'' [''7'', [], ''P1''])"
    by (simp_all add: switchKey_def)
  from known_segments_fully_shaped[where line = "''PID|7||P1''" and t = "''PID''"
      and fields = "[''7'', [], ''P1'']" and wire = "''MSH|x\<newline>PID|7||P1''"
      and pre = "[''MSH|x'']" and post = "[]"
      and names = "[(''setId'', 0), (''patientId'', 2), (''patientName'', 4), (''dob'', 6),
              (''gender'', 7), (''address'', 10)]"] sp n2 w2
  have b: "fullyShaped
     [(''setId'', 0), (''patientId'', 2), (''patientName'', 4), (''dob'', 6), (''gender'', 7),
      (''address'', 10)]
     [''7'', [], ''P1''] (switchData cms1500Names ''PID'' [''7'', [], ''P1''])"
    "convertHL7ToJson_cms1500 ''MSH|x\<newline>PID|7||P1'' ''PID''
     = Some (switchData cms1500Names ''PID'' [''7'', [], ''P1''])"
    by simp_all
  from a b v show ?thesis by blast
qed





lemma digitChar_inj: "digitChar a = digitChar b \<Longrightarrow> a mod 10 = b mod 10"
proof -
  assume "digitChar a = digitChar b"
  moreover have "distinct ''0123456789''" by simp
  moreover have "a mod 10 < length ''0123456789''" "b mod 10 < length ''0123456789''" by simp_all
  ultimately show ?thesis unfolding digitChar_def by (simp only: nth_eq_iff_index_eq)
qed

lemma showNat_not_Nil: "showNat n \<noteq> []"
  by (subst showNat.simps) simp

lemma showNat_small: "n < 10 \<Longrightarrow> showNat n = [digitChar n]"
  by (subst showNat.simps) simp

lemma showNat_big: "\<not> n < 10 \<Longrightarrow> showNat n = showNat (n div 10) @ [digitChar n]"
  by (subst showNat.simps) simp

lemma showNat_length: "length (showNat n) = 1 \<longleftrightarrow> n < 10"
  using showNat_not_Nil[of "n div 10"] by (cases "n < 10") (auto simp: showNat_small showNat_big)

lemma showNat_inj: "showNat n = showNat m \<Longrightarrow> n = m"
proof (induction n arbitrary: m rule: showNat.induct)
  case (1 n)
  show ?case
  proof (cases "n < 10")
    case True
    with 1(2) have m: "m < 10" by (metis showNat_length)
    with True 1(2) have "digitChar n = digitChar m" by (simp add: showNat_small)
    from digitChar_inj[OF this] True m show ?thesis by simp
  next
    case False
    with 1(2) have m: "\<not> m < 10" by (metis showNat_length)
    with False 1(2) have "showNat (n div 10) = showNat (m div 10)" "digitChar n = digitChar m"
      by (simp_all add: showNat_big)
    with 1(1)[OF False] digitChar_inj have "n div 10 = m div 10" "n mod 10 = m mod 10" by blast+
    then show ?thesis by (metis div_mult_mod_eq)
  qed
qed

lemma fieldsForEach_miss:
  "(\<And>j. j < length fs \<Longrightarrow> fieldKeyOf mp (i + j) \<noteq> k) \<Longrightarrow> fieldsForEach mp fs i acc k = acc k"
proof (induction fs arbitrary: i acc)
  case Nil
  show ?case by simp
next
  case (Cons f fs)
  have "fieldsForEach mp fs (i + 1) (acc(fieldKeyOf mp i \<mapsto> f)) k = (acc(fieldKeyOf mp i \<mapsto> f)) k"
  proof (rule Cons.IH)
    fix j assume "j < length fs"
    then show "fieldKeyOf mp (i + 1 + j) \<noteq> k" using Cons.prems[of "Suc j"] by simp
  qed
  moreover have "fieldKeyOf mp i \<noteq> k" using Cons.prems[of 0] by simp
  ultimately show ?case by simp
qed

lemma fieldsForEach_hit:
  "j < length fs \<Longrightarrow> fieldKeyOf mp (i + j) = k \<Longrightarrow>
   (\<And>j'. j < j' \<Longrightarrow> j' < length fs \<Longrightarrow> fieldKeyOf mp (i + j') \<noteq> k) \<Longrightarrow>
   fieldsForEach mp fs i acc k = Some (fs ! j)"
proof (induction fs arbitrary: i acc j)
  case Nil
  then show ?case by simp
next
  case (Cons f fs)
  show ?case
  proof (cases j)
    case 0
    have "fieldsForEach mp fs (i + 1) (acc(fieldKeyOf mp i \<mapsto> f)) k = (acc(fieldKeyOf mp i \<mapsto> f)) k"
    proof (rule fieldsForEach_miss)
      fix j' assume "j' < length fs"
      then show "fieldKeyOf mp (i + 1 + j') \<noteq> k" using Cons.prems(3)[of "Suc j'"] 0 by simp
    qed
    with 0 Cons.prems(2) show ?thesis by simp
  next
    case (Suc j0)
    have "fieldsForEach mp fs (i + 1) (acc(fieldKeyOf mp i \<mapsto> f)) k = Some (fs ! j0)"
    proof (rule Cons.IH)
      show "j0 < length fs" using Cons.prems(1) Suc by simp
      show "fieldKeyOf mp (i + 1 + j0) = k" using Cons.prems(2) Suc by simp
      fix j' assume "j0 < j'" "j' < length fs"
      then show "fieldKeyOf mp (i + 1 + j') \<noteq> k" using Cons.prems(3)[of "Suc j'"] Suc by simp
    qed
    with Suc show ?thesis by simp
  qed
qed

lemma fieldKeyOf_unmapped:
  "map_of mp (''field'' @ showNat (j + 1)) = None \<Longrightarrow> fieldKeyOf mp j = ''field'' @ showNat (j + 1)"
  by (simp add: fieldKeyOf_def)

lemma fieldKeyOf_mapped:
  "map_of mp (''field'' @ showNat (j + 1)) = Some name \<Longrightarrow> name \<noteq> [] \<Longrightarrow> fieldKeyOf mp j = name"
  by (simp add: fieldKeyOf_def)

lemma fieldKeyOf_cases:
  obtains (generic) "fieldKeyOf mp j = ''field'' @ showNat (j + 1)"
  | (named) name where "(''field'' @ showNat (j + 1), name) \<in> set mp" "fieldKeyOf mp j = name"
proof (cases "map_of mp (''field'' @ showNat (j + 1))")
  case None
  then have "fieldKeyOf mp j = ''field'' @ showNat (j + 1)" by (simp add: fieldKeyOf_def)
  then show ?thesis by (rule generic)
next
  case (Some a)
  show ?thesis
  proof (cases "a = []")
    case True
    with Some have "fieldKeyOf mp j = ''field'' @ showNat (j + 1)" by (simp add: fieldKeyOf_def)
    then show ?thesis by (rule generic)
  next
    case False
    with Some have "fieldKeyOf mp j = a" by (simp add: fieldKeyOf_def)
    with map_of_SomeD[OF Some] show ?thesis by (rule named)
  qed
qed

lemma tableOk_names:
  "tableOk mp \<Longrightarrow> (k, name) \<in> set mp \<Longrightarrow> \<not> startsWith ''field'' name"
  by (auto simp: tableOk_def list_all_iff)

lemma tableOk_same:
  assumes "tableOk mp" "(k, name) \<in> set mp" "(k', name) \<in> set mp"
  shows "k = k'"
proof -
  from assms(1) have "inj_on snd (set mp)" by (simp add: tableOk_def distinct_map)
  from inj_onD[OF this _ assms(2,3)] show ?thesis by simp
qed

lemma generic_startsWith: "startsWith ''field'' (''field'' @ s)"
  by (simp add: startsWith_def)

lemma fieldKeyOf_inj:
  assumes ok: "tableOk mp" and eq: "fieldKeyOf mp j = fieldKeyOf mp j'"
  shows "j = j'"
proof -
  have "showNat (j + 1) = showNat (j' + 1)"
  proof (cases rule: fieldKeyOf_cases[of mp j])
    case generic
    show ?thesis
    proof (cases rule: fieldKeyOf_cases[of mp j'])
      case generic
      with \<open>fieldKeyOf mp j = ''field'' @ showNat (j + 1)\<close> eq show ?thesis by simp
    next
      case (named name)
      with \<open>fieldKeyOf mp j = ''field'' @ showNat (j + 1)\<close> eq
      have "name = ''field'' @ showNat (j + 1)" by simp
      with tableOk_names[OF ok named(1)] generic_startsWith show ?thesis by simp
    qed
  next
    case (named name)
    show ?thesis
    proof (cases rule: fieldKeyOf_cases[of mp j'])
      case generic
      with named eq have "name = ''field'' @ showNat (j' + 1)" by simp
      with tableOk_names[OF ok named(1)] generic_startsWith show ?thesis by simp
    next
      case (named name')
      with \<open>fieldKeyOf mp j = name\<close> eq have "name' = name" by simp
      with named(1) have "(''field'' @ showNat (j' + 1), name) \<in> set mp" by simp
      from tableOk_same[OF ok \<open>(''field'' @ showNat (j + 1), name) \<in> set mp\<close> this]
      show ?thesis by simp
    qed
  qed
  from showNat_inj[OF this] show ?thesis by simp
qed

lemma fieldsForEach_at:
  assumes "tableOk mp" "j < length fs"
  shows "fieldsForEach mp fs 0 Map.empty (fieldKeyOf mp j) = Some (fs ! j)"
proof (rule fieldsForEach_hit[OF assms(2)])
  show "fieldKeyOf mp (0 + j) = fieldKeyOf mp j" by simp
  fix j' assume "j < j'" "j' < length fs"
  then show "fieldKeyOf mp (0 + j') \<noteq> fieldKeyOf mp j"
    using fieldKeyOf_inj[OF assms(1), of j' j] by auto
qed

lemma source_tables_ok: "list_all (\<lambda>(t, mp). tableOk mp) segmentFieldMappings"
  by (simp add: segmentFieldMappings_def tableOk_def startsWith_def)

lemma source_table_ok: "tableOk (mappingsFor segmentFieldMappings t)"
proof (cases "map_of segmentFieldMappings t")
  case None
  then show ?thesis by (simp add: mappingsFor_def tableOk_def)
next
  case (Some mp)
  from map_of_SomeD[OF Some] source_tables_ok have "tableOk mp" by (auto simp: list_all_iff)
  with Some show ?thesis by (simp add: mappingsFor_def)
qed

lemma example_decode:
  "convertHL7ToJson ''MSH|a|b\<newline>PID|x''
   = [''MSH'' \<mapsto> [''encodingCharacters'' \<mapsto> ''a'', ''sendingApplication'' \<mapsto> ''b''],
      ''PID'' \<mapsto> [''setId'' \<mapsto> ''x'']]"
  by (simp add: convertHL7ToJson_def wireLines_def trimTruthy_def isSpace_def decodeLine_def
      segmentKeyOf_def nthOpt_def fieldKeyOf_def mappingsFor_def segmentFieldMappings_def
      showNat.simps digitChar_def assign_def)

lemma fieldsForEach_dom:
  "dom (fieldsForEach mp fs i acc) = dom acc \<union> (\<lambda>j. fieldKeyOf mp (i + j)) ` {..<length fs}"
proof (induction fs arbitrary: i acc)
  case Nil
  show ?case by simp
next
  case (Cons f fs)
  have "dom (fieldsForEach mp fs (Suc i) (acc(fieldKeyOf mp i \<mapsto> f)))
      = dom (acc(fieldKeyOf mp i \<mapsto> f)) \<union> (\<lambda>j. fieldKeyOf mp (Suc i + j)) ` {..<length fs}"
    by (rule Cons.IH)
  then have 1: "dom (fieldsForEach mp (f # fs) i acc)
      = insert (fieldKeyOf mp i) (dom acc) \<union> (\<lambda>j. fieldKeyOf mp (Suc i + j)) ` {..<length fs}"
    by simp
  have 2: "(\<lambda>j. fieldKeyOf mp (i + j)) ` {..<length (f # fs)}
      = insert (fieldKeyOf mp i) ((\<lambda>j. fieldKeyOf mp (Suc i + j)) ` {..<length fs})"
    by (simp add: lessThan_Suc_eq_insert_0 image_image)
  show ?case unfolding 1 2 by blast
qed

lemma decodeLine_key:
  "split CHR ''|'' line = t # fields \<Longrightarrow> segmentKeyOf t fields \<noteq> ''__proto__'' \<Longrightarrow>
     decodeLine out line (segmentKeyOf t fields)
       = Some (fieldsForEach (mappingsFor segmentFieldMappings t) fields 0 Map.empty)"
  by (simp add: decodeLine_def assign_other)

text \<open>
  C5 (amended). The decoder (part_000, line 208) takes the wire text alone; its schema is
  the table written in it, which maps position 1 of MSH to \<open>encodingCharacters\<close>,
  position 2 of MSH to \<open>sendingApplication\<close> and position 1 of PID to \<open>setId\<close>.
  Decoding \<open>MSH|a|b\<close>, \<open>PID|x\<close> gives exactly
  \<open>{MSH:{encodingCharacters:"a", sendingApplication:"b"}, PID:{setId:"x"}}\<close>. In
  general, the field map of a line whose segment key is not \<open>__proto__\<close> binds, for
  every wire position, the name of that position to the field there and has no other
  name; the name of a position with no entry in the table is \<open>field<N>\<close>, \<open>N\<close> the
  1-based position.
\<close>

theorem decode_names_positions:
  "convertHL7ToJson ''MSH|a|b\<newline>PID|x''
     = [''MSH'' \<mapsto> [''encodingCharacters'' \<mapsto> ''a'', ''sendingApplication'' \<mapsto> ''b''],
        ''PID'' \<mapsto> [''setId'' \<mapsto> ''x'']] \<and>
   (split CHR ''|'' line = t # fields \<and> segmentKeyOf t fields \<noteq> ''__proto__'' \<and>
    j < length fields \<longrightarrow>
      (\<exists>m. decodeLine out line (segmentKeyOf t fields) = Some m \<and>
           dom m = fieldKeyOf (mappingsFor segmentFieldMappings t) ` {..<length fields} \<and>
           m (fieldKeyOf (mappingsFor segmentFieldMappings t) j) = Some (fields ! j) \<and>
           (map_of (mappingsFor segmentFieldMappings t) (''field'' @ showNat (j + 1)) = None \<longrightarrow>
              fieldKeyOf (mappingsFor segmentFieldMappings t) j = ''field'' @ showNat (j + 1) \<and>
              m (''field'' @ showNat (j + 1)) = Some (fields ! j))))"
proof (intro conjI impI)
  show "convertHL7ToJson ''MSH|a|b\<newline>PID|x''
     = [''MSH'' \<mapsto> [''encodingCharacters'' \<mapsto> ''a'', ''sendingApplication'' \<mapsto> ''b''],
        ''PID'' \<mapsto> [''setId'' \<mapsto> ''x'']]"
    by (rule example_decode)
next
  assume a: "split CHR ''|'' line = t # fields \<and> segmentKeyOf t fields \<noteq> ''__proto__'' \<and>
    j < length fields"
  let ?mp = "mappingsFor segmentFieldMappings t"
  let ?m = "fieldsForEach ?mp fields 0 Map.empty"
  from a have f1: "decodeLine out line (segmentKeyOf t fields) = Some ?m"
    by (simp add: decodeLine_key)
  have f2: "dom ?m = fieldKeyOf ?mp ` {..<length fields}"
    by (simp add: fieldsForEach_dom)
  from a have f3: "?m (fieldKeyOf ?mp j) = Some (fields ! j)"
    by (simp add: fieldsForEach_at[OF source_table_ok])
  have f4: "map_of ?mp (''field'' @ showNat (j + 1)) = None \<longrightarrow>
      fieldKeyOf ?mp j = ''field'' @ showNat (j + 1) \<and>
      ?m (''field'' @ showNat (j + 1)) = Some (fields ! j)"
    using f3 fieldKeyOf_unmapped[of ?mp j] by auto
  show "\<exists>m. decodeLine out line (segmentKeyOf t fields) = Some m \<and>
           dom m = fieldKeyOf (mappingsFor segmentFieldMappings t) ` {..<length fields} \<and>
           m (fieldKeyOf (mappingsFor segmentFieldMappings t) j) = Some (fields ! j) \<and>
           (map_of (mappingsFor segmentFieldMappings t) (''field'' @ showNat (j + 1)) = None \<longrightarrow>
              fieldKeyOf (mappingsFor segmentFieldMappings t) j = ''field'' @ showNat (j + 1) \<and>
              m (''field'' @ showNat (j + 1)) = Some (fields ! j))"
    by (intro exI[of _ ?m] conjI; fact)
qed

theorem decode_names_positions_witness:
  "\<exists>m. decodeLine Map.empty ''PID|7|x|P1'' ''PID'' = Some m \<and>
        m ''setId'' = Some ''7'' \<and> m ''field2'' = Some ''x'' \<and>
        dom m = {''setId'', ''field2'', ''patientId''}"
proof -
  have sp: "split CHR ''|'' ''PID|7|x|P1'' = ''PID'' # [''7'', ''x'', ''P1'']" by simp
  have s: "showNat (Suc 0) = ''1''" "showNat (Suc (Suc 0)) = ''2''"
    "showNat (Suc (Suc (Suc 0))) = ''3''"
    by (simp_all add: showNat.simps digitChar_def)
  have un: "map_of (mappingsFor segmentFieldMappings ''PID'') (''field'' @ showNat (Suc 0 + 1)) = None"
    by (simp add: s mappingsFor_def segmentFieldMappings_def)
  have k: "segmentKeyOf ''PID'' [''7'', ''x'', ''P1''] = ''PID''" by (simp add: segmentKeyOf_def)
  have ks: "fieldKeyOf (mappingsFor segmentFieldMappings ''PID'') ` {..<Suc (Suc (Suc 0))}
      = {''setId'', ''field2'', ''patientId''}"
    by (auto simp: lessThan_Suc fieldKeyOf_def mappingsFor_def segmentFieldMappings_def s)
  have k0: "fieldKeyOf (mappingsFor segmentFieldMappings ''PID'') 0 = ''setId''"
    by (simp add: fieldKeyOf_def mappingsFor_def segmentFieldMappings_def s)
  from decode_names_positions[where line = "''PID|7|x|P1''" and t = "''PID''"
      and fields = "[''7'', ''x'', ''P1'']" and j = "Suc 0" and out = Map.empty] sp un k
  obtain m where m: "decodeLine Map.empty ''PID|7|x|P1'' ''PID'' = Some m"
      "dom m = fieldKeyOf (mappingsFor segmentFieldMappings ''PID'') ` {..<length [''7'', ''x'', ''P1'']}"
      "m (''field'' @ showNat (Suc 0 + 1)) = Some ([''7'', ''x'', ''P1''] ! Suc 0)"
    by auto
  from decode_names_positions[where line = "''PID|7|x|P1''" and t = "''PID''"
      and fields = "[''7'', ''x'', ''P1'']" and j = 0 and out = Map.empty] sp k m(1)
  have "m (fieldKeyOf (mappingsFor segmentFieldMappings ''PID'') 0) = Some ([''7'', ''x'', ''P1''] ! 0)"
    by auto
  with m show ?thesis by (simp add: s ks k0)
qed

text \<open>
  On the wire text of the example the decoder does not give the names \<open>sendingApp\<close>,
  \<open>field2\<close> and \<open>patientId\<close>: its table names these positions. The decoder of
  CMSConverter.tsx has no table: for a known type it keeps the fixed names only and drops
  every other position, and for an unknown type it numbers the fields from 0.
\<close>

theorem decode_example_counterexample:
  "convertHL7ToJson ''MSH|a|b\<newline>PID|x''
     \<noteq> [''MSH'' \<mapsto> [''sendingApp'' \<mapsto> ''a'', ''field2'' \<mapsto> ''b''], ''PID'' \<mapsto> [''patientId'' \<mapsto> ''x'']] \<and>
   (case convertHL7ToJson ''MSH|a|b\<newline>PID|x'' ''MSH'' of
      Some m \<Rightarrow> [m ''sendingApp'', m ''field2'', m ''encodingCharacters'', m ''sendingApplication'']
    | None \<Rightarrow> [])
     = [None, None, Some ''a'', Some ''b''] \<and>
   (case convertHL7ToJson ''MSH|a|b\<newline>PID|x'' ''PID'' of
      Some m \<Rightarrow> [m ''patientId'', m ''setId''] | None \<Rightarrow> [])
     = [None, Some ''x''] \<and>
   (case convertHL7ToJson_switch ''ZZZ|a|b'' ''ZZZ'' of
      Some m \<Rightarrow> [m ''field0'', m ''field1'', m ''field2''] | None \<Rightarrow> [])
     = [Some ''a'', Some ''b'', None] \<and>
   (case convertHL7ToJson_switch ''MSH|a|b|c|d|e|f|g'' ''MSH'' of
      Some m \<Rightarrow> [m ''dateTime'', m ''field7''] | None \<Rightarrow> [])
     = [Some ''f'', None]"
proof -
  let ?r = "convertHL7ToJson ''MSH|a|b\<newline>PID|x''"
  have e: "?r = [''MSH'' \<mapsto> [''encodingCharacters'' \<mapsto> ''a'', ''sendingApplication'' \<mapsto> ''b''],
      ''PID'' \<mapsto> [''setId'' \<mapsto> ''x'']]"
    by (rule example_decode)
  have a: "(case ?r ''MSH'' of
      Some m \<Rightarrow> [m ''sendingApp'', m ''field2'', m ''encodingCharacters'', m ''sendingApplication'']
    | None \<Rightarrow> []) = [None, None, Some ''a'', Some ''b'']"
    unfolding e by simp
  have b: "(case ?r ''PID'' of Some m \<Rightarrow> [m ''patientId'', m ''setId''] | None \<Rightarrow> [])
     = [None, Some ''x'']"
    unfolding e by simp
  have "(case [''MSH'' \<mapsto> [''sendingApp'' \<mapsto> ''a'', ''field2'' \<mapsto> ''b''],
               ''PID'' \<mapsto> [''patientId'' \<mapsto> ''x'']] ''PID'' of
      Some m \<Rightarrow> [m ''patientId'', m ''setId''] | None \<Rightarrow> []) = [Some ''x'', None]"
    by simp
  with b have c: "?r \<noteq> [''MSH'' \<mapsto> [''sendingApp'' \<mapsto> ''a'', ''field2'' \<mapsto> ''b''],
      ''PID'' \<mapsto> [''patientId'' \<mapsto> ''x'']]"
    by (metis list.inject option.distinct(1))
  have d: "(case convertHL7ToJson_switch ''ZZZ|a|b'' ''ZZZ'' of
      Some m \<Rightarrow> [m ''field0'', m ''field1'', m ''field2''] | None \<Rightarrow> [])
     = [Some ''a'', Some ''b'', None]"
    "(case convertHL7ToJson_switch ''MSH|a|b|c|d|e|f|g'' ''MSH'' of
      Some m \<Rightarrow> [m ''dateTime'', m ''field7''] | None \<Rightarrow> [])
     = [Some ''f'', None]"
    by (simp_all add: convertHL7ToJson_switch_def wireLines_def trimTruthy_def isSpace_def
      decodeLine_switch_def switchKey_def switchData_def switchNames_def objectOf_def fld_eq
      showNat.simps digitChar_def assign_def)
  from a b c d show ?thesis by blast
qed
section \<open>The order of the OBX segments\<close>

lemma insertBy_mset: "mset (insertBy cmp x xs) = add_mset x (mset xs)"
  by (induction xs) auto

lemma sortBy_mset: "mset (sortBy cmp xs) = mset xs"
  by (induction xs) (auto simp: sortBy_def insertBy_mset)

lemma insertBy_set: "set (insertBy cmp x xs) = insert x (set xs)"
  by (induction xs) auto

text \<open>Under a comparator that is a total preorder the insertion keeps a list in order.\<close>

lemma insertBy_sorted:
  assumes c: "collation cmp"
    and s: "sorted_wrt (\<lambda>a b. cmp (f a) (f b) \<le> 0) xs"
  shows "sorted_wrt (\<lambda>a b. cmp (f a) (f b) \<le> 0) (insertBy (\<lambda>a b. cmp (f a) (f b)) x xs)"
  using s
proof (induction xs)
  case Nil
  show ?case by simp
next
  case (Cons y ys)
  from c have total: "\<And>a b. cmp a b \<le> 0 \<or> cmp b a \<le> 0"
    and trans: "\<And>a b c. cmp a b \<le> 0 \<Longrightarrow> cmp b c \<le> 0 \<Longrightarrow> cmp a c \<le> 0"
    unfolding collation_def by blast+
  from Cons.prems have ys: "sorted_wrt (\<lambda>a b. cmp (f a) (f b) \<le> 0) ys"
    and y: "\<And>z. z \<in> set ys \<Longrightarrow> cmp (f y) (f z) \<le> 0"
    by simp_all
  show ?case
  proof (cases "cmp (f x) (f y) \<le> 0")
    case True
    then have "\<And>z. z \<in> set ys \<Longrightarrow> cmp (f x) (f z) \<le> 0" using y trans by blast
    with True Cons.prems show ?thesis by simp
  next
    case False
    with total[of "f x" "f y"] have "cmp (f y) (f x) \<le> 0" by simp
    with False y Cons.IH[OF ys] show ?thesis by (auto simp: insertBy_set)
  qed
qed

lemma sortBy_sorted:
  assumes "collation cmp"
  shows "sorted_wrt (\<lambda>a b. cmp (f a) (f b) \<le> 0) (sortBy (\<lambda>a b. cmp (f a) (f b)) xs)"
proof (induction xs)
  case Nil
  show ?case by (simp add: sortBy_def)
next
  case (Cons x xs)
  from insertBy_sorted[OF assms Cons, of x] show ?case by (simp add: sortBy_def)
qed

text \<open>The sort is stable: the elements of one sort value keep their order.\<close>

lemma insertBy_filter:
  assumes total: "\<And>a b. cmp a b \<le> 0 \<or> cmp b a \<le> 0"
  shows "filter (\<lambda>k. f k = v) (insertBy (\<lambda>a b. cmp (f a) (f b)) x xs)
           = (if f x = v then x # filter (\<lambda>k. f k = v) xs else filter (\<lambda>k. f k = v) xs)"
proof (induction xs)
  case Nil
  show ?case by simp
next
  case (Cons y ys)
  show ?case
  proof (cases "cmp (f x) (f y) \<le> 0")
    case True
    then show ?thesis by simp
  next
    case False
    with total[of "f x" "f x"] have "f y \<noteq> f x" by auto
    with False Cons show ?thesis by auto
  qed
qed

lemma sortBy_stable:
  assumes "collation cmp"
  shows "filter (\<lambda>k. f k = v) (sortBy (\<lambda>a b. cmp (f a) (f b)) xs) = filter (\<lambda>k. f k = v) xs"
proof -
  from assms have total: "\<And>a b. cmp a b \<le> 0 \<or> cmp b a \<le> 0"
    unfolding collation_def by blast
  show ?thesis
    by (induction xs) (simp_all add: sortBy_def insertBy_filter[of cmp, OF total])
qed

lemma codeOrder_le: "codeOrder a b \<le> 0 \<longleftrightarrow> a \<le> b"
  by (auto simp: codeOrder_def)

lemma codeOrder_collation: "collation codeOrder"
  unfolding collation_def codeOrder_le by (meson linear order_trans)

lemma codeOrder_digits: "lexicographicOnDigits codeOrder"
  by (simp add: lexicographicOnDigits_def codeOrder_le)

lemma sortId_present:
  assumes "k \<in> set (map fst json)" "getNestedValue json k ''setId'' \<noteq> []"
  shows "sortId json k = getNestedValue json k ''setId''"
proof -
  from assms(1) obtain d where "map_of json k = Some d"
    by (metis domD dom_map_of_conv_image_fst list.set_map)
  with assms(2) show ?thesis by (simp add: sortId_def getNestedValue_def)
qed

lemma obxKeys_set: "set (obxKeys cmp json) = set (filter (startsWith ''OBX'') (map fst json))"
  by (metis obxKeys_def sortBy_mset set_mset_mset)

lemma join_prefix: "\<exists>r. join sep (a # rest) = a @ r"
  by (cases rest) auto

lemma trimTrailing_hd:
  assumes "fs \<noteq> []"
  shows "\<exists>rest. trimTrailing fs = hd fs # rest"
proof -
  from trimTrailing_shape[of fs] assms obtain k where
    k: "fs = trimTrailing fs @ replicate k []" and ne: "trimTrailing fs \<noteq> []" by blast
  from ne obtain a rest where ar: "trimTrailing fs = a # rest" by (cases "trimTrailing fs") auto
  with k have "hd fs = a" by (metis append_Cons list.sel(1))
  with ar show ?thesis by simp
qed

lemma obxSegment_carries_setId:
  "\<exists>r. obxSegment json k = ''OBX|'' @ getNestedValue json k ''setId'' @ r"
proof -
  let ?d = "case map_of json k of Some d \<Rightarrow> d | None \<Rightarrow> []"
  have sid: "getProp ?d ''setId'' = getNestedValue json k ''setId''"
    by (simp add: getNestedValue_def getProp_def split: option.splits)
  have "obxFields ?d \<noteq> []" "hd (obxFields ?d) = getProp ?d ''setId''"
    by (simp_all add: obxFields_def)
  with trimTrailing_hd[of "obxFields ?d"] obtain rest
    where "trimTrailing (obxFields ?d) = getProp ?d ''setId'' # rest" by auto
  moreover obtain r where "join ''|'' (getProp ?d ''setId'' # rest) = getProp ?d ''setId'' @ r"
    using join_prefix by blast
  ultimately show ?thesis by (simp add: obxSegment_def createSegment_def sid)
qed

text \<open>
  C3 (amended). Both JSON encoders (CMSConverter.tsx, line 190; part_000, line 176) emit one
  OBX line for every key of the record that begins with \<open>OBX\<close>, after the standard
  segments; each line carries the set-identifier of its instance as its first field. The
  lines are ordered by the collation of the runtime (\<open>localeCompare\<close>, a total
  preorder) on a sort value, which is the instance's set-identifier, or the segment key of
  the instance where the set-identifier is absent or empty; instances with the same sort
  value keep the order of the record. Where every instance has a set-identifier made of
  decimal digits, on which collation is the lexicographic order of the characters, the
  lines are in the lexicographic order of the set-identifiers, and \<open>10\<close> is emitted
  before \<open>2\<close>.
\<close>

theorem obx_lines_ordered:
  "convertToHL7 cmp json
     = join [CHR 0x0A] (concat (map (standardSegment json) segmentDefinitions)
         @ map (obxSegment json) (obxKeys cmp json)) \<and>
   convertToHL7_paths cmp json
     = join [CHR 0x0A] (map (pathSegment json) hl7Mappings
         @ map (obxSegment json) (obxKeys cmp json)) \<and>
   (\<exists>r. obxSegment json k = ''OBX|'' @ getNestedValue json k ''setId'' @ r) \<and>
   mset (obxKeys cmp json) = mset (filter (startsWith ''OBX'') (map fst json)) \<and>
   (collation cmp \<longrightarrow>
      sorted_wrt (\<lambda>a b. cmp (sortId json a) (sortId json b) \<le> 0) (obxKeys cmp json) \<and>
      filter (\<lambda>k. sortId json k = v) (obxKeys cmp json)
        = filter (\<lambda>k. sortId json k = v) (filter (startsWith ''OBX'') (map fst json))) \<and>
   (collation cmp \<and> lexicographicOnDigits cmp \<and>
    list_all (\<lambda>k. getNestedValue json k ''setId'' \<noteq> [] \<and>
                   digitString (getNestedValue json k ''setId''))
      (filter (startsWith ''OBX'') (map fst json))
      \<longrightarrow> sorted (map (\<lambda>k. getNestedValue json k ''setId'') (obxKeys cmp json)))"
proof (intro conjI impI)
  show "convertToHL7 cmp json
     = join [CHR 0x0A] (concat (map (standardSegment json) segmentDefinitions)
         @ map (obxSegment json) (obxKeys cmp json))"
    by (simp add: convertToHL7_def obxSegments_def)
  show "convertToHL7_paths cmp json
     = join [CHR 0x0A] (map (pathSegment json) hl7Mappings
         @ map (obxSegment json) (obxKeys cmp json))"
    by (simp add: convertToHL7_paths_def obxSegments_def)
  show "\<exists>r. obxSegment json k = ''OBX|'' @ getNestedValue json k ''setId'' @ r"
    by (rule obxSegment_carries_setId)
  show "mset (obxKeys cmp json) = mset (filter (startsWith ''OBX'') (map fst json))"
    by (simp add: obxKeys_def sortBy_mset)
next
  assume c: "collation cmp"
  show "sorted_wrt (\<lambda>a b. cmp (sortId json a) (sortId json b) \<le> 0) (obxKeys cmp json)"
    unfolding obxKeys_def by (rule sortBy_sorted[OF c])
  show "filter (\<lambda>k. sortId json k = v) (obxKeys cmp json)
        = filter (\<lambda>k. sortId json k = v) (filter (startsWith ''OBX'') (map fst json))"
    unfolding obxKeys_def by (rule sortBy_stable[OF c])
next
  assume a: "collation cmp \<and> lexicographicOnDigits cmp \<and>
    list_all (\<lambda>k. getNestedValue json k ''setId'' \<noteq> [] \<and>
                   digitString (getNestedValue json k ''setId''))
      (filter (startsWith ''OBX'') (map fst json))"
  let ?sid = "\<lambda>k. getNestedValue json k ''setId''"
  have sid: "sortId json k = ?sid k \<and> digitString (?sid k)" if "k \<in> set (obxKeys cmp json)" for k
  proof -
    from that have k: "k \<in> set (filter (startsWith ''OBX'') (map fst json))"
      by (simp only: obxKeys_set)
    with a have "?sid k \<noteq> []" "digitString (?sid k)" by (simp_all add: list_all_iff)
    moreover from k have "k \<in> set (map fst json)" by simp
    ultimately show ?thesis by (simp add: sortId_present)
  qed
  from a have "sorted_wrt (\<lambda>a b. cmp (sortId json a) (sortId json b) \<le> 0) (obxKeys cmp json)"
    unfolding obxKeys_def by (intro sortBy_sorted) simp
  then have "sorted_wrt (\<lambda>a b. ?sid a \<le> ?sid b) (obxKeys cmp json)"
  proof (rule sorted_wrt_mono_rel[rotated])
    fix x y assume "x \<in> set (obxKeys cmp json)" "y \<in> set (obxKeys cmp json)"
      and "cmp (sortId json x) (sortId json y) \<le> 0"
    with sid[of x] sid[of y] a show "?sid x \<le> ?sid y"
      by (simp add: lexicographicOnDigits_def)
  qed
  then show "sorted (map ?sid (obxKeys cmp json))"
    by (simp add: sorted_map)
qed

theorem obx_lines_ordered_witness:
  "collation codeOrder \<and> lexicographicOnDigits codeOrder \<and>
   obxKeys codeOrder [(''OBX2'', [(''setId'', ''2'')]), (''OBX10'', [(''setId'', ''10'')])]
     = [''OBX10'', ''OBX2''] \<and>
   sorted [''10'', ''2''] \<and>
   convertToHL7 codeOrder [(''OBX2'', [(''setId'', ''2'')]), (''OBX10'', [(''setId'', ''10'')])]
     = ''OBX|10\<newline>OBX|2''"
proof -
  let ?json = "[(''OBX2'', [(''setId'', ''2'')]), (''OBX10'', [(''setId'', ''10'')])]"
  have k: "obxKeys codeOrder ?json = [''OBX10'', ''OBX2'']"
    by (simp add: obxKeys_def sortBy_def startsWith_def sortId_def getProp_def codeOrder_def)
  have h: "list_all (\<lambda>k. getNestedValue ?json k ''setId'' \<noteq> [] \<and>
                   digitString (getNestedValue ?json k ''setId''))
      (filter (startsWith ''OBX'') (map fst ?json))"
    by (simp add: startsWith_def getNestedValue_def getProp_def digitString_def isDigit_def)
  have std: "concat (map (standardSegment ?json) segmentDefinitions) = []"
    by (simp add: standardSegment_def segmentDefinitions_def)
  have segs: "map (obxSegment ?json) [''OBX10'', ''OBX2''] = [''OBX|10'', ''OBX|2'']"
    by (simp add: obxSegment_def obxFields_def getProp_def createSegment_def trimTrailing.simps)
  from obx_lines_ordered[of codeOrder ?json] h codeOrder_collation codeOrder_digits
  have "sorted (map (\<lambda>k. getNestedValue ?json k ''setId'') (obxKeys codeOrder ?json))"
    and "convertToHL7 codeOrder ?json
     = join [CHR 0x0A] (concat (map (standardSegment ?json) segmentDefinitions)
         @ map (obxSegment ?json) (obxKeys codeOrder ?json))"
    by blast+
  then have "sorted [''10'', ''2'']" "convertToHL7 codeOrder ?json = ''OBX|10\<newline>OBX|2''"
    unfolding k std segs by (simp_all add: getNestedValue_def getProp_def)
  with k codeOrder_collation codeOrder_digits show ?thesis by blast
qed

text \<open>
  An instance with no set-identifier is ordered by its key: \<open>OBX\<close> against the
  set-identifier \<open>1\<close> of the other instance, which every collation puts first, the
  digit before the letter. The lines are then not in the order of the set-identifiers,
  the empty one being the least.
\<close>

theorem obx_order_by_key_counterexample:
  "convertToHL7 codeOrder [(''OBX'', [(''valueType'', ''ST'')]), (''OBX1'', [(''setId'', ''1'')])]
     = ''OBX|1\<newline>OBX||ST'' \<and>
   map (\<lambda>k. getNestedValue [(''OBX'', [(''valueType'', ''ST'')]), (''OBX1'', [(''setId'', ''1'')])]
               k ''setId'')
       (obxKeys codeOrder [(''OBX'', [(''valueType'', ''ST'')]), (''OBX1'', [(''setId'', ''1'')])])
     = [''1'', []] \<and>
   \<not> sorted [''1'', []] \<and>
   codeOrder ''OBX'' ''1'' = 1"
  by (simp add: convertToHL7_def standardSegment_def segmentDefinitions_def obxSegments_def
      obxSegment_def obxFields_def createSegment_def trimTrailing.simps obxKeys_def sortBy_def
      startsWith_def sortId_def getProp_def getNestedValue_def codeOrder_def)
section \<open>The quorum of the extractor\<close>

text \<open>The list of missing fields names the required fields for which neither expression
  matched, in the order of the table.\<close>

lemma missing_list:
  "extractAll rx text st es = Inr st' \<Longrightarrow>
     missingRequiredFields st'
       = missingRequiredFields st @ map key (filter (\<lambda>e. required e \<and> matchOf rx text e = None) es)"
proof (induction es arbitrary: st)
  case Nil
  then show ?case by simp
next
  case (Cons e es)
  from Cons.prems obtain st1 where s1: "extractField rx text st e = Inr st1"
    and rest: "extractAll rx text st1 es = Inr st'"
    by (auto split: sum.splits)
  from s1 have "missingRequiredFields st1
      = missingRequiredFields st @ (if required e \<and> matchOf rx text e = None then [key e] else [])"
    by (auto simp: extractField_def found_def split: option.splits if_splits sum.splits prod.splits)
  with Cons.IH[OF rest] show ?case by simp
qed


lemma form_passes_checks: "length (normalizeText formText) = 58 \<and> hasKeyword (normalizeText formText)"
  by code_simp

lemma form_loop:
  "(case extractAll formEngine (normalizeText formText) (Extraction Map.empty [] 0) fieldExtractors of
      Inr st \<Rightarrow> Some (requiredFieldsFound st, missingRequiredFields st,
                     extractedData st ''serviceDate'')
    | Inl e \<Rightarrow> None) = Some (3, [], None)"
  by code_simp

text \<open>
  C4. On the text \<open>formText\<close> three of the four required fields are matched and
  accepted; the expression of the fourth, \<open>serviceDate\<close>, matches a date whose year,
  2026, is outside 1900 to 2025, so the field is left unset and is not counted. The count
  is below the quorum of 4 and the extraction fails, but the list it carries is empty: the
  required field that was not recovered, \<open>serviceDate\<close>, is not named.
\<close>

theorem quorum_failure_omits_rejected_date:
  "extractData formEngine formText = Inl (InsufficientRequiredData []) \<and>
   (case extractAll formEngine (normalizeText formText) (Extraction Map.empty [] 0) fieldExtractors of
      Inr st \<Rightarrow> Some (requiredFieldsFound st, missingRequiredFields st,
                     extractedData st ''serviceDate'')
    | Inl e \<Rightarrow> None) = Some (3, [], None)"
proof -
  from form_loop obtain st where
    st: "extractAll formEngine (normalizeText formText) (Extraction Map.empty [] 0) fieldExtractors
          = Inr st" "requiredFieldsFound st = 3" "missingRequiredFields st = []"
    by (auto split: sum.splits)
  with form_passes_checks have "extractData formEngine formText = Inl (InsufficientRequiredData [])"
    by (simp add: extractData_def)
  with form_loop show ?thesis by simp
qed


text \<open>With the year in range the same form is accepted, and the fields that were not found
  get their defaults.\<close>

lemma form_in_range_accepted:
  "(case extractData formEngine formTextInRange of
      Inr data \<Rightarrow> Some (map data [''patientName'', ''serviceDate'', ''dob'', ''procedureCode''])
    | Inl e \<Rightarrow> None)
   = Some [Some ''Smith'', Some ''12/31/2024'', Some ''01/01/1900'', Some ''00000'']"
  by code_simp

section \<open>The round trip\<close>

text \<open>
  The table-driven encoder (part_000, line 163) makes for a standard segment an array of
  \<open>max + 1\<close> slots, stores the field of index \<open>i\<close> in slot \<open>i\<close>, and joins all
  the slots, slot 0 too, after the type token. Slot 0 is never written, so every field
  lands one position to the right of its index: the set-identifier of PID, of index 1, is
  the second field of the line. The decoder of the same file reads position 1 as the
  set-identifier, the comments of the table count positions in the same way (PV1-19,
  PV1-44, IN1-6), and the encoder of CMSConverter.tsx puts the field at its index.
\<close>

text \<open>
  C1. The record \<open>{PID:{setId:"1", patientId:"X"}}\<close> populates two fields of the
  schema and no other. The encoder writes it as \<open>PID||1||X\<close>, whatever the comparator
  of the sort, and the decoder reads that line as
  \<open>{PID:{setId:"", field2:"1", patientId:"", field4:"X"}}\<close>: decoding the encoding of
  the record does not give the record, and both of its fields come back empty.
\<close>

theorem encode_shifts_standard_fields:
  "convertToHL7 cmp [(''PID'', [(''setId'', ''1''), (''patientId'', ''X'')])] = ''PID||1||X'' \<and>
   convertHL7ToJson (convertToHL7 cmp [(''PID'', [(''setId'', ''1''), (''patientId'', ''X'')])])
     = [''PID'' \<mapsto> [''setId'' \<mapsto> [], ''field2'' \<mapsto> ''1'', ''patientId'' \<mapsto> [], ''field4'' \<mapsto> ''X'']] \<and>
   recordOf [(''PID'', [(''setId'', ''1''), (''patientId'', ''X'')])]
     = [''PID'' \<mapsto> [''setId'' \<mapsto> ''1'', ''patientId'' \<mapsto> ''X'']] \<and>
   convertHL7ToJson (convertToHL7 cmp [(''PID'', [(''setId'', ''1''), (''patientId'', ''X'')])])
     \<noteq> recordOf [(''PID'', [(''setId'', ''1''), (''patientId'', ''X'')])]"
proof -
  let ?r = "[(''PID'', [(''setId'', ''1''), (''patientId'', ''X'')])]"
  have k: "obxSegments cmp ?r = []"
    by (simp add: obxSegments_def obxKeys_def sortBy_def startsWith_def)
  have s: "concat (map (standardSegment ?r) segmentDefinitions) = [''PID||1||X'']"
    by code_simp
  have e: "convertToHL7 cmp ?r = ''PID||1||X''"
    by (simp add: convertToHL7_def k s)
  have d: "convertHL7ToJson ''PID||1||X''
     = [''PID'' \<mapsto> [''setId'' \<mapsto> [], ''field2'' \<mapsto> ''1'', ''patientId'' \<mapsto> [], ''field4'' \<mapsto> ''X'']]"
    by (simp add: convertHL7ToJson_def wireLines_def trimTruthy_def isSpace_def decodeLine_def
      segmentKeyOf_def nthOpt_def fieldKeyOf_def mappingsFor_def segmentFieldMappings_def
      showNat.simps digitChar_def assign_def)
  have r: "recordOf ?r = [''PID'' \<mapsto> [''setId'' \<mapsto> ''1'', ''patientId'' \<mapsto> ''X'']]"
    by (rule ext) (auto simp: recordOf_def)
  have "[''PID'' \<mapsto> [''setId'' \<mapsto> [], ''field2'' \<mapsto> ''1'', ''patientId'' \<mapsto> [], ''field4'' \<mapsto> ''X'']]
      \<noteq> [''PID'' \<mapsto> [''setId'' \<mapsto> ''1'', ''patientId'' \<mapsto> ''X'']]"
  proof
    assume "[''PID'' \<mapsto> [''setId'' \<mapsto> [], ''field2'' \<mapsto> ''1'', ''patientId'' \<mapsto> [], ''field4'' \<mapsto> ''X'']]
      = [''PID'' \<mapsto> [''setId'' \<mapsto> ''1'', ''patientId'' \<mapsto> ''X'']]"
    then have "[''setId'' \<mapsto> [], ''field2'' \<mapsto> ''1'', ''patientId'' \<mapsto> [], ''field4'' \<mapsto> ''X'']
      = [''setId'' \<mapsto> ''1'', ''patientId'' \<mapsto> ''X'']"
      by (simp add: map_upd_eqD1)
    then have "[''setId'' \<mapsto> [], ''field2'' \<mapsto> ''1'', ''patientId'' \<mapsto> [], ''field4'' \<mapsto> ''X''] ''setId''
      = [''setId'' \<mapsto> ''1'', ''patientId'' \<mapsto> ''X''] ''setId''"
      by (rule arg_cong)
    then show False by simp
  qed
  with e d r show ?thesis by simp
qed

text \<open>The encoder of CMSConverter.tsx puts the two fields of the same record at their
  positions, after an MSH line that it writes for every record.\<close>

lemma path_encoder_places_fields:
  "convertToHL7_paths cmp [(''PID'', [(''setId'', ''1''), (''patientId'', ''X'')])]
     = ''MSH|\<newline>PID|1||X\<newline>PV1|\<newline>PR1|\<newline>IN1|'' \<and>
   (case convertHL7ToJson ''MSH|\<newline>PID|1||X\<newline>PV1|\<newline>PR1|\<newline>IN1|'' ''PID'' of
      Some m \<Rightarrow> [m ''setId'', m ''patientId''] | None \<Rightarrow> [])
     = [Some ''1'', Some ''X'']"
proof -
  let ?r = "[(''PID'', [(''setId'', ''1''), (''patientId'', ''X'')])]"
  have k: "obxSegments cmp ?r = []"
    by (simp add: obxSegments_def obxKeys_def sortBy_def startsWith_def)
  have s: "map (pathSegment ?r) hl7Mappings = [''MSH|'', ''PID|1||X'', ''PV1|'', ''PR1|'', ''IN1|'']"
    by code_simp
  have e: "convertToHL7_paths cmp ?r = ''MSH|\<newline>PID|1||X\<newline>PV1|\<newline>PR1|\<newline>IN1|''"
    by (simp add: convertToHL7_paths_def k s)
  have d: "(case convertHL7ToJson ''MSH|\<newline>PID|1||X\<newline>PV1|\<newline>PR1|\<newline>IN1|'' ''PID'' of
      Some m \<Rightarrow> [m ''setId'', m ''patientId''] | None \<Rightarrow> [])
     = [Some ''1'', Some ''X'']"
    by code_simp
  from e d show ?thesis by simp
qed

subsection \<open>The OBX segments\<close>

text \<open>
  The OBX lines are built from a literal list of fields, each at its position, and are
  not shifted. The lemmas below show what the round trip is on them.
\<close>

lemma getProp_safe: "list_all (\<lambda>p. wireSafe (snd p)) d \<Longrightarrow> wireSafe (getProp d n)"
proof (cases "map_of d n")
  case None
  then show ?thesis by (simp add: getProp_def wireSafe_def)
next
  case (Some v)
  assume "list_all (\<lambda>p. wireSafe (snd p)) d"
  with map_of_SomeD[OF Some] Some show ?thesis by (auto simp: getProp_def list_all_iff)
qed

lemma map_of_getProp:
  "map_of d n = (if n \<in> set (map fst d) then Some (getProp d n) else None)"
proof (cases "map_of d n")
  case None
  then show ?thesis by (simp add: map_of_eq_None_iff)
next
  case (Some v)
  from map_of_SomeD[OF Some] have "n \<in> set (map fst d)" by force
  with Some show ?thesis by (simp add: getProp_def)
qed

text \<open>The line of an instance.\<close>

lemma obx_line:
  assumes "getProp d ''observationStatus'' \<noteq> []"
  shows "createSegment ''OBX'' (obxFields d) = join ''|'' (''OBX'' # obxFields d)"
proof -
  have "trimTrailing (obxFields d) = obxFields d"
    by (rule trimTrailing_stop) (simp add: obxFields_def assms)
  then show ?thesis by (simp add: createSegment_def)
qed

lemma obxFields_safe:
  assumes "list_all (\<lambda>p. wireSafe (snd p)) d"
  shows "list_all wireSafe (obxFields d)"
  using getProp_safe[OF assms] by (simp add: obxFields_def) (simp add: wireSafe_def)

lemma fieldsForEach_zip:
  "fieldsForEach mp fs i acc
     = foldl (\<lambda>m (k, v). m(k \<mapsto> v)) acc (zip (map (fieldKeyOf mp) [i..<i + length fs]) fs)"
proof (induction fs arbitrary: i acc)
  case Nil
  show ?case by simp
next
  case (Cons f fs)
  have e: "[i..<i + length (f # fs)] = i # [i + 1..<i + 1 + length fs]"
    by (subst upt_rec) simp
  have "fieldsForEach mp (f # fs) i acc
      = fieldsForEach mp fs (i + 1) (acc(fieldKeyOf mp i \<mapsto> f))"
    by simp
  also have "\<dots> = foldl (\<lambda>m (k, v). m(k \<mapsto> v)) (acc(fieldKeyOf mp i \<mapsto> f))
      (zip (map (fieldKeyOf mp) [i + 1..<i + 1 + length fs]) fs)"
    by (rule Cons.IH)
  also have "\<dots> = foldl (\<lambda>m (k, v). m(k \<mapsto> v)) acc
      (zip (map (fieldKeyOf mp) [i..<i + length (f # fs)]) (f # fs))"
    unfolding e by simp
  finally show ?case .
qed

lemma obx_keys:
  "map (fieldKeyOf (mappingsFor segmentFieldMappings ''OBX'')) [0..<11]
     = [''setId'', ''valueType'', ''observationIdentifier'', ''field4'', ''observationValue'',
        ''field6'', ''field7'', ''field8'', ''field9'', ''field10'', ''observationStatus'']"
  by code_simp

lemma obx_fields_decoded:
  "fieldsForEach (mappingsFor segmentFieldMappings ''OBX'') [a, b, c, x4, e, x6, x7, x8, x9, x10, f] 0 Map.empty
     = [''setId'' \<mapsto> a, ''valueType'' \<mapsto> b, ''observationIdentifier'' \<mapsto> c, ''field4'' \<mapsto> x4,
        ''observationValue'' \<mapsto> e, ''field6'' \<mapsto> x6, ''field7'' \<mapsto> x7, ''field8'' \<mapsto> x8,
        ''field9'' \<mapsto> x9, ''field10'' \<mapsto> x10, ''observationStatus'' \<mapsto> f]"
proof -
  have "0 + length [a, b, c, x4, e, x6, x7, x8, x9, x10, f] = 11" by simp
  then show ?thesis
    unfolding fieldsForEach_zip by (simp only: obx_keys) simp
qed

lemma join_without:
  "list_all (\<lambda>x. c \<notin> set x) xs \<Longrightarrow> c \<notin> set sep \<Longrightarrow> c \<notin> set (join sep xs)"
  by (induction sep xs rule: join.induct) auto

lemma explicit_is_decodedObx:
  assumes "set (map fst d) = set obxNames"
  shows "[''setId'' \<mapsto> getProp d ''setId'', ''valueType'' \<mapsto> getProp d ''valueType'',
          ''observationIdentifier'' \<mapsto> getProp d ''observationIdentifier'', ''field4'' \<mapsto> [],
          ''observationValue'' \<mapsto> getProp d ''observationValue'', ''field6'' \<mapsto> [],
          ''field7'' \<mapsto> [], ''field8'' \<mapsto> [], ''field9'' \<mapsto> [], ''field10'' \<mapsto> [],
          ''observationStatus'' \<mapsto> getProp d ''observationStatus'']
         = decodedObx d"
proof (rule ext)
  fix x
  have m: "map_of d x = (if x \<in> set obxNames then Some (getProp d x) else None)"
    using map_of_getProp[of d x] assms by simp
  show "[''setId'' \<mapsto> getProp d ''setId'', ''valueType'' \<mapsto> getProp d ''valueType'',
          ''observationIdentifier'' \<mapsto> getProp d ''observationIdentifier'', ''field4'' \<mapsto> [],
          ''observationValue'' \<mapsto> getProp d ''observationValue'', ''field6'' \<mapsto> [],
          ''field7'' \<mapsto> [], ''field8'' \<mapsto> [], ''field9'' \<mapsto> [], ''field10'' \<mapsto> [],
          ''observationStatus'' \<mapsto> getProp d ''observationStatus''] x
         = decodedObx d x"
    unfolding decodedObx_def by (simp add: m obxNames_def)
qed

lemma obx_line_split:
  assumes "obxInstance (k, d)"
  shows "split CHR ''|'' (createSegment ''OBX'' (obxFields d)) = ''OBX'' # obxFields d"
proof -
  from assms have st: "getProp d ''observationStatus'' \<noteq> []"
    and safe: "list_all (\<lambda>p. wireSafe (snd p)) d"
    by (simp_all add: obxInstance_def)
  have "list_all (\<lambda>x. CHR ''|'' \<notin> set x) (''OBX'' # obxFields d)"
    using obxFields_safe[OF safe] by (simp add: list_all_iff wireSafe_def)
  then have "split CHR ''|'' (join [CHR ''|''] (''OBX'' # obxFields d)) = ''OBX'' # obxFields d"
    by (intro split_join) simp_all
  then show ?thesis by (simp add: obx_line[OF st])
qed

lemma obx_line_decodes:
  assumes "obxInstance (k, d)"
  shows "decodeLine out (createSegment ''OBX'' (obxFields d)) = out(k \<mapsto> decodedObx d)"
proof -
  from assms have key: "k = ''OBX'' @ getProp d ''setId''" and sid: "getProp d ''setId'' \<noteq> []"
    and names: "set (map fst d) = set obxNames"
    by (simp_all add: obxInstance_def)
  have sk: "segmentKeyOf ''OBX'' (obxFields d) = k"
    using sid key by (simp add: segmentKeyOf_def obxFields_def nthOpt_def)
  have "fieldsForEach (mappingsFor segmentFieldMappings ''OBX'') (obxFields d) 0 Map.empty
      = decodedObx d"
    unfolding obxFields_def obx_fields_decoded by (rule explicit_is_decodedObx[OF names])
  moreover from key have "k \<noteq> ''__proto__''" by auto
  ultimately show ?thesis
    using sk by (simp add: decodeLine_def obx_line_split[OF assms] assign_def)
qed

lemma obx_line_good:
  assumes "obxInstance (k, d)"
  shows "CHR 0x0A \<notin> set (createSegment ''OBX'' (obxFields d))"
    and "trimTruthy (createSegment ''OBX'' (obxFields d))"
proof -
  from assms have st: "getProp d ''observationStatus'' \<noteq> []"
    and safe: "list_all (\<lambda>p. wireSafe (snd p)) d"
    by (simp_all add: obxInstance_def)
  have "list_all (\<lambda>x. CHR 0x0A \<notin> set x) (''OBX'' # obxFields d)"
    using obxFields_safe[OF safe] by (simp add: list_all_iff wireSafe_def)
  then have "CHR 0x0A \<notin> set (join ''|'' (''OBX'' # obxFields d))"
    by (rule join_without) simp
  then show "CHR 0x0A \<notin> set (createSegment ''OBX'' (obxFields d))" by (simp add: obx_line[OF st])
  have "join ''|'' (''OBX'' # obxFields d) = CHR ''O'' # ''BX|'' @ join ''|'' (obxFields d)"
    by (simp add: obxFields_def)
  then show "trimTruthy (createSegment ''OBX'' (obxFields d))"
    by (simp add: obx_line[OF st] trimTruthy_def isSpace_def)
qed

lemma wireLines_join:
  assumes "list_all (\<lambda>l. CHR 0x0A \<notin> set l \<and> trimTruthy l) ls"
  shows "wireLines (join [CHR 0x0A] ls) = ls"
proof (cases ls)
  case Nil
  then show ?thesis by (simp add: wireLines_def trimTruthy_def)
next
  case (Cons l ls')
  from assms have "list_all (\<lambda>l. CHR 0x0A \<notin> set l) ls" "filter trimTruthy ls = ls"
    by (simp_all add: list_all_iff)
  with Cons show ?thesis by (simp add: wireLines_def split_join)
qed

lemma foldl_decode_keys:
  assumes "\<And>k out. k \<in> set ks \<Longrightarrow> decodeLine out (line k) = out(k \<mapsto> val k)"
  shows "foldl decodeLine out (map line ks) x = (if x \<in> set ks then Some (val x) else out x)"
  using assms
proof (induction ks arbitrary: out rule: rev_induct)
  case Nil
  show ?case by simp
next
  case (snoc k ks)
  have "foldl decodeLine out (map line ks) x = (if x \<in> set ks then Some (val x) else out x)"
    by (rule snoc.IH) (simp add: snoc.prems)
  then show ?case by (simp add: snoc.prems)
qed

lemma obx_only_keys:
  assumes "list_all obxInstance json"
  shows "filter (startsWith ''OBX'') (map fst json) = map fst json"
proof -
  have "startsWith ''OBX'' (fst e)" if "e \<in> set json" for e
    using assms that by (auto simp: list_all_iff obxInstance_def startsWith_def)
  then show ?thesis by (simp add: filter_id_conv)
qed

lemma obx_only_standard:
  assumes "list_all obxInstance json"
  shows "concat (map (standardSegment json) segmentDefinitions) = []"
proof -
  have none: "map_of json t = None" if "\<not> startsWith ''OBX'' t" for t
  proof (rule ccontr)
    assume "map_of json t \<noteq> None"
    then obtain d where "map_of json t = Some d" by auto
    from map_of_SomeD[OF this] assms have "obxInstance (t, d)" by (simp add: list_all_iff)
    with that show False by (simp add: obxInstance_def startsWith_def)
  qed
  show ?thesis
    by (simp add: standardSegment_def segmentDefinitions_def none startsWith_def)
qed

lemma obx_entry:
  assumes "list_all obxInstance json" "k \<in> set (obxKeys cmp json)"
  obtains d where "map_of json k = Some d" "obxInstance (k, d)"
proof -
  from assms have "k \<in> set (map fst json)"
    by (simp only: obxKeys_set obx_only_keys[OF assms(1)])
  then obtain d where d: "map_of json k = Some d"
    by (metis domD dom_map_of_conv_image_fst list.set_map)
  from map_of_SomeD[OF d] assms(1) have "obxInstance (k, d)" by (simp add: list_all_iff)
  with d show ?thesis by (rule that)
qed

text \<open>
  For a record made of OBX instances only, each stored under \<open>OBX\<close> followed by its
  non-empty set-identifier, with exactly the five fields of the OBX schema, a non-empty
  observation status and no separator or line break in a value: decoding the encoding of
  the record gives the same segment keys, and under each key the fields of the record
  unchanged, together with the empty string under \<open>field4\<close>, \<open>field6\<close>,
  \<open>field7\<close>, \<open>field8\<close>, \<open>field9\<close> and \<open>field10\<close>, the positions between them
  that the schema leaves out and that the decoder names by design.
\<close>

lemma obx_round_trip:
  assumes a: "list_all obxInstance json"
  shows "convertHL7ToJson (convertToHL7 cmp json) = (\<lambda>k. map_option decodedObx (map_of json k))"
proof -
  let ?val = "\<lambda>k. decodedObx (case map_of json k of Some d \<Rightarrow> d | None \<Rightarrow> [])"
  have line: "obxSegment json k = createSegment ''OBX'' (obxFields d)"
    if "map_of json k = Some d" for k d
    using that by (simp add: obxSegment_def)
  have good: "list_all (\<lambda>l. CHR 0x0A \<notin> set l \<and> trimTruthy l) (map (obxSegment json) (obxKeys cmp json))"
    unfolding list_all_iff
  proof
    fix l assume "l \<in> set (map (obxSegment json) (obxKeys cmp json))"
    then obtain k where k: "k \<in> set (obxKeys cmp json)" "l = obxSegment json k" by auto
    from obx_entry[OF a k(1)] obtain d where d: "map_of json k = Some d" "obxInstance (k, d)" .
    with obx_line_good[OF d(2)] k(2) line[OF d(1)]
    show "CHR 0x0A \<notin> set l \<and> trimTruthy l" by simp
  qed
  have step: "decodeLine out (obxSegment json k) = out(k \<mapsto> ?val k)"
    if "k \<in> set (obxKeys cmp json)" for k out
  proof -
    from obx_entry[OF a that] obtain d where d: "map_of json k = Some d" "obxInstance (k, d)" .
    with obx_line_decodes[OF d(2), of out] line[OF d(1)] show ?thesis by simp
  qed
  have wire: "convertToHL7 cmp json = join [CHR 0x0A] (map (obxSegment json) (obxKeys cmp json))"
    by (simp add: convertToHL7_def obx_only_standard[OF a] obxSegments_def)
  show "convertHL7ToJson (convertToHL7 cmp json) = (\<lambda>k. map_option decodedObx (map_of json k))"
  proof (rule ext)
    fix x
    have "convertHL7ToJson (convertToHL7 cmp json) x
        = foldl decodeLine Map.empty (map (obxSegment json) (obxKeys cmp json)) x"
      by (simp add: convertHL7ToJson_def wire wireLines_join[OF good])
    also have "\<dots> = (if x \<in> set (obxKeys cmp json) then Some (?val x) else None)"
      by (subst foldl_decode_keys[where val = ?val]) (simp_all add: step)
    also have "\<dots> = map_option decodedObx (map_of json x)"
    proof (cases "x \<in> set (obxKeys cmp json)")
      case True
      from obx_entry[OF a True] obtain d where "map_of json x = Some d" by blast
      with True show ?thesis by simp
    next
      case False
      then have "x \<notin> set (map fst json)"
        using obxKeys_set[of cmp json] obx_only_keys[OF a] by simp
      then have "map_of json x = None" by (simp add: map_of_eq_None_iff)
      with False show ?thesis by simp
    qed
    finally show "convertHL7ToJson (convertToHL7 cmp json) x = map_option decodedObx (map_of json x)" .
  qed
qed

lemma obx_round_trip_example:
  "list_all obxInstance obxExample \<and>
   convertToHL7 codeOrder obxExample
     = ''OBX|10|NM|Units||||||||P\<newline>OBX|2|ST|SvcDate||20250516||||||F'' \<and>
   convertHL7ToJson (convertToHL7 codeOrder obxExample)
     = (\<lambda>k. map_option decodedObx (map_of obxExample k)) \<and>
   (case convertHL7ToJson (convertToHL7 codeOrder obxExample) ''OBX2'' of
      Some m \<Rightarrow> m ''field4'' | None \<Rightarrow> None) = Some [] \<and>
   (case recordOf obxExample ''OBX2'' of Some m \<Rightarrow> m ''field4'' | None \<Rightarrow> None) = None"
proof -
  have i: "list_all obxInstance obxExample"
    by (simp add: obxExample_def obxInstance_def getProp_def obxNames_def wireSafe_def)
  have w: "convertToHL7 codeOrder obxExample
     = ''OBX|10|NM|Units||||||||P\<newline>OBX|2|ST|SvcDate||20250516||||||F''"
    by code_simp
  have a: "(case convertHL7ToJson (convertToHL7 codeOrder obxExample) ''OBX2'' of
      Some m \<Rightarrow> m ''field4'' | None \<Rightarrow> None) = Some []"
    by code_simp
  have b: "(case recordOf obxExample ''OBX2'' of Some m \<Rightarrow> m ''field4'' | None \<Rightarrow> None) = None"
    by (simp add: recordOf_def obxExample_def)
  from obx_round_trip[OF i, of codeOrder] i w a b show ?thesis by blast
qed

end
